theory Spec2Isabelle
  imports Main "HOL-Library.Word"
begin

section \<open>Values exchanged with the browser\<close>

text \<open>
  \<^verbatim>\<open>websocket.receive_json()\<close> yields a parsed JSON value, and \<^verbatim>\<open>websocket.send_json(d)\<close>
  takes one. A JSON object is the list of the items of the Python dict (its keys are
  distinct, as a dict's are). \<open>JNum\<close> stands for the numbers; only their truth value and
  their difference from every string matter to the code.
\<close>

datatype json =
    JNull
  | JBool bool
  | JNum int
  | JStr string
  | JArr "json list"
  | JObj "(string \<times> json) list"

text \<open>\<^verbatim>\<open>data.get(key)\<close> on a dict: the value, or \<^verbatim>\<open>None\<close> when the key is absent.\<close>

definition dict_get :: "(string \<times> json) list \<Rightarrow> string \<Rightarrow> json" where
  "dict_get kvs k = (case map_of kvs k of None \<Rightarrow> JNull | Some v \<Rightarrow> v)"

text \<open>Python's truth value of a parsed JSON value, as \<^verbatim>\<open>if audio_base64 and ...\<close> takes it.\<close>

fun truthy :: "json \<Rightarrow> bool" where
  "truthy JNull = False"
| "truthy (JBool b) = b"
| "truthy (JNum n) = (n \<noteq> 0)"
| "truthy (JStr s) = (s \<noteq> [])"
| "truthy (JArr xs) = (xs \<noteq> [])"
| "truthy (JObj kvs) = (kvs \<noteq> [])"

fun type_name :: "json \<Rightarrow> string" where
  "type_name JNull = ''NoneType''"
| "type_name (JBool b) = ''bool''"
| "type_name (JNum n) = ''int''"
| "type_name (JStr s) = ''str''"
| "type_name (JArr xs) = ''list''"
| "type_name (JObj kvs) = ''dict''"

section \<open>Exceptions and awaited calls\<close>

text \<open>
  Every exception the awaited calls of this program raise is an instance of Python's
  \<^verbatim>\<open>Exception\<close>; the handlers tell \<^verbatim>\<open>WebSocketDisconnect\<close> from the rest. Each value carries
  the text \<^verbatim>\<open>str(e)\<close>. \<^verbatim>\<open>CancelledError\<close> is not an \<^verbatim>\<open>Exception\<close>; it only arises from
  \<^verbatim>\<open>task.cancel()\<close> and is modelled where \<^verbatim>\<open>start\<close> cancels a task.
\<close>

datatype exn = WebSocketDisconnect string | Exception string

fun str_of :: "exn \<Rightarrow> string" where
  "str_of (WebSocketDisconnect m) = m"
| "str_of (Exception m) = m"

text \<open>The outcome of one awaited call, supplied by the environment when the caller resumes.\<close>

datatype 'a awaited = Returns 'a | Raises exn

definition quoted :: "string \<Rightarrow> string" where
  "quoted s = CHR 0x27 # s @ [CHR 0x27]"

text \<open>\<^verbatim>\<open>data.get\<close> on a value that is not a dict raises \<^verbatim>\<open>AttributeError\<close>.\<close>

definition attribute_error :: "json \<Rightarrow> exn" where
  "attribute_error v =
     Exception (quoted (type_name v) @ '' object has no attribute '' @ quoted ''get'')"

text \<open>
  Reading an attribute of \<^verbatim>\<open>None\<close> raises \<^verbatim>\<open>AttributeError\<close>, and \<^verbatim>\<open>base64.b64encode(None)\<close>
  raises \<^verbatim>\<open>TypeError\<close>.
\<close>

definition none_attribute_error :: "string \<Rightarrow> exn" where
  "none_attribute_error a =
     Exception (quoted ''NoneType'' @ '' object has no attribute '' @ quoted a)"

definition bytes_type_error :: exn where
  "bytes_type_error = Exception (''a bytes-like object is required, not '' @ quoted ''NoneType'')"

section \<open>Standard base64\<close>

text \<open>
  \<^verbatim>\<open>base64.b64encode(event.delta).decode("utf-8")\<close>: the standard library's encoder (RFC 4648,
  the standard alphabet, padded with \<^verbatim>\<open>=\<close>), three bytes to four characters. The decoder
  is the standard one for padded input.
\<close>

type_synonym byte = "8 word"

definition b64_alphabet :: string where
  "b64_alphabet = ''ABCDEFGHIJKLMNOPQRSTUVWXYZabcdefghijklmnopqrstuvwxyz0123456789+/''"

definition b64_char :: "nat \<Rightarrow> char" where
  "b64_char n = b64_alphabet ! (n mod 64)"

definition b64_value :: "char \<Rightarrow> nat option" where
  "b64_value c = map_of (zip b64_alphabet [0..<64]) c"

fun b64encode :: "byte list \<Rightarrow> string" where
  "b64encode [] = []"
| "b64encode [a] =
     [b64_char (unat a div 4), b64_char (unat a mod 4 * 16), CHR ''='', CHR ''='']"
| "b64encode [a, b] =
     [b64_char (unat a div 4), b64_char (unat a mod 4 * 16 + unat b div 16),
      b64_char (unat b mod 16 * 4), CHR ''='']"
| "b64encode (a # b # c # rest) =
     [b64_char (unat a div 4), b64_char (unat a mod 4 * 16 + unat b div 16),
      b64_char (unat b mod 16 * 4 + unat c div 64), b64_char (unat c mod 64)]
     @ b64encode rest"

definition quantum3 :: "char \<Rightarrow> char \<Rightarrow> char \<Rightarrow> char \<Rightarrow> byte list option" where
  "quantum3 c1 c2 c3 c4 =
     (case (b64_value c1, b64_value c2, b64_value c3, b64_value c4) of
        (Some v1, Some v2, Some v3, Some v4) \<Rightarrow>
          Some [of_nat (v1 * 4 + v2 div 16), of_nat (v2 mod 16 * 16 + v3 div 4),
                of_nat (v3 mod 4 * 64 + v4)]
      | _ \<Rightarrow> None)"

definition quantum2 :: "char \<Rightarrow> char \<Rightarrow> char \<Rightarrow> byte list option" where
  "quantum2 c1 c2 c3 =
     (case (b64_value c1, b64_value c2, b64_value c3) of
        (Some v1, Some v2, Some v3) \<Rightarrow>
          Some [of_nat (v1 * 4 + v2 div 16), of_nat (v2 mod 16 * 16 + v3 div 4)]
      | _ \<Rightarrow> None)"

definition quantum1 :: "char \<Rightarrow> char \<Rightarrow> byte list option" where
  "quantum1 c1 c2 =
     (case (b64_value c1, b64_value c2) of
        (Some v1, Some v2) \<Rightarrow> Some [of_nat (v1 * 4 + v2 div 16)]
      | _ \<Rightarrow> None)"

fun b64decode :: "string \<Rightarrow> byte list option" where
  "b64decode [] = Some []"
| "b64decode (c1 # c2 # c3 # c4 # rest) =
     (if rest = [] \<and> c4 = CHR ''='' then
        (if c3 = CHR ''='' then quantum1 c1 c2 else quantum2 c1 c2 c3)
      else
        (case quantum3 c1 c2 c3 c4 of
           None \<Rightarrow> None
         | Some bs \<Rightarrow> map_option ((@) bs) (b64decode rest)))"
| "b64decode _ = None"

section \<open>The session and what it does to the outside\<close>

text \<open>
  \<^verbatim>\<open>WebSocketVoiceSession\<close>: the fields of \<^verbatim>\<open>__init__\<close>. The browser socket and the credential
  are opaque handles the code never inspects, so they carry no field; the upstream
  connection is an opaque handle that is absent until \<^verbatim>\<open>connect\<close> has returned.
\<close>

type_synonym conn = nat

record session =
  endpoint :: string
  model :: string
  voice :: string
  instructions :: string
  connection :: "conn option"
  session_ready :: bool
  active :: bool

definition WebSocketVoiceSession :: "string \<Rightarrow> string \<Rightarrow> string \<Rightarrow> string \<Rightarrow> session" where
  "WebSocketVoiceSession e m v i =
     \<lparr>endpoint = e, model = m, voice = v, instructions = i,
      connection = None, session_ready = False, active = True\<rparr>"

text \<open>
  The events of the upstream service the code tells apart, and any other tag. An event of
  a tag whose payload the handler reads (\<^verbatim>\<open>event.session\<close>, \<^verbatim>\<open>event.delta\<close>, \<^verbatim>\<open>event.error\<close>)
  can arrive with that attribute \<^verbatim>\<open>None\<close>: the last three constructors.
\<close>

datatype server_event =
    SESSION_UPDATED string
  | INPUT_AUDIO_BUFFER_SPEECH_STARTED
  | INPUT_AUDIO_BUFFER_SPEECH_STOPPED
  | RESPONSE_CREATED
  | RESPONSE_AUDIO_DELTA "byte list"
  | RESPONSE_AUDIO_DONE
  | RESPONSE_DONE
  | ERROR string
  | OTHER string
  | SESSION_UPDATED_without_session
  | RESPONSE_AUDIO_DELTA_without_delta
  | ERROR_without_error

datatype voice_config = AzureStandardVoice string | OpenAIVoice string

text \<open>
  What the code does to the outside, in program order: log records at the levels the
  logger is configured to emit (\<^verbatim>\<open>logger.debug\<close> is below it), calls on the upstream
  connection, calls on the browser socket, and task cancellation. A call that is awaited
  is recorded when it is made; its outcome arrives when the caller resumes.
\<close>

datatype effect =
    LogInfo string
  | LogError string
  | WebSocketAccept
  | Connect string string
  | SessionUpdate voice_config string
  | InputAudioBufferAppend json
  | ResponseCancel
  | ConnectionClose
  | SendJson json
  | WebSocketClose
  | TaskCancel string

fun notification_of :: "effect \<Rightarrow> json option" where
  "notification_of (SendJson j) = Some j"
| "notification_of _ = None"

definition notifications :: "effect list \<Rightarrow> json list" where
  "notifications es = List.map_filter notification_of es"

fun command_of :: "effect \<Rightarrow> effect option" where
  "command_of (InputAudioBufferAppend a) = Some (InputAudioBufferAppend a)"
| "command_of ResponseCancel = Some ResponseCancel"
| "command_of (SessionUpdate v i) = Some (SessionUpdate v i)"
| "command_of _ = None"

definition commands :: "effect list \<Rightarrow> effect list" where
  "commands es = List.map_filter command_of es"

section \<open>The two relay coroutines, cut at their awaits\<close>

text \<open>
  An asyncio task runs without interruption from one \<^verbatim>\<open>await\<close> to the next. Each function
  below is one such stretch of a coroutine: it takes the session as the task finds it
  and the outcome of the call it was suspended in, and gives the session as the task
  leaves it, the effects in order, and where the task is then.
\<close>

datatype 'at task = Not_created | Suspended 'at | Returned | Raised exn | Cancelled

datatype receive_at = At_receive_json | At_upstream_command

datatype process_at = At_next_event | At_send_json

type_synonym 'at stretch = "session \<times> effect list \<times> 'at task"

definition session_of :: "'at stretch \<Rightarrow> session" where
  "session_of x = fst x"

definition effects_of :: "'at stretch \<Rightarrow> effect list" where
  "effects_of x = fst (snd x)"

definition task_of :: "'at stretch \<Rightarrow> 'at task" where
  "task_of x = snd (snd x)"

subsection \<open>\<^verbatim>\<open>_receive_from_browser\<close>\<close>

text \<open>\<^verbatim>\<open>while self.active:\<close> and, when it holds, the call of \<^verbatim>\<open>receive_json\<close>.\<close>

definition receive_loop :: "session \<Rightarrow> receive_at stretch" where
  "receive_loop s = (if active s then (s, [], Suspended At_receive_json) else (s, [], Returned))"

text \<open>The two handlers around the loop; after either the coroutine returns.\<close>

fun receive_except :: "exn \<Rightarrow> session \<Rightarrow> receive_at stretch" where
  "receive_except (WebSocketDisconnect m) s =
     (s\<lparr>active := False\<rparr>, [LogInfo ''Browser disconnected during receive''], Returned)"
| "receive_except (Exception m) s =
     (s\<lparr>active := False\<rparr>, [LogError (''Error receiving from browser: '' @ m)], Returned)"

text \<open>The body of the loop for one received message, up to its next await.\<close>

definition receive_message :: "session \<Rightarrow> json \<Rightarrow> receive_at stretch" where
  "receive_message s data =
     (case data of
        JObj kvs \<Rightarrow>
          (let message_type = dict_get kvs ''type'' in
           if message_type = JStr ''audio'' then
             (let audio_base64 = dict_get kvs ''audio'' in
              if truthy audio_base64 \<and> connection s \<noteq> None
              then (s, [InputAudioBufferAppend audio_base64], Suspended At_upstream_command)
              else receive_loop s)
           else if message_type = JStr ''interrupt'' then
             (if connection s \<noteq> None
              then (s, [LogInfo ''Interrupt requested by browser'', ResponseCancel],
                    Suspended At_upstream_command)
              else (case receive_loop s of
                      (s', es, t) \<Rightarrow> (s', LogInfo ''Interrupt requested by browser'' # es, t)))
           else if message_type = JStr ''stop'' then
             (s\<lparr>active := False\<rparr>, [LogInfo ''Stop requested by browser''], Returned)
           else receive_loop s)
      | _ \<Rightarrow> receive_except (attribute_error data) s)"

text \<open>The task resumes from \<^verbatim>\<open>await self.websocket.receive_json()\<close>.\<close>

fun receive_received :: "session \<Rightarrow> json awaited \<Rightarrow> receive_at stretch" where
  "receive_received s (Returns data) = receive_message s data"
| "receive_received s (Raises e) = receive_except e s"

text \<open>
  The task resumes from \<^verbatim>\<open>await self.connection.input_audio_buffer.append(...)\<close> or
  \<^verbatim>\<open>await self.connection.response.cancel()\<close>.
\<close>

fun receive_forwarded :: "session \<Rightarrow> unit awaited \<Rightarrow> receive_at stretch" where
  "receive_forwarded s (Returns u) = receive_loop s"
| "receive_forwarded s (Raises e) = receive_except e s"

subsection \<open>\<^verbatim>\<open>_handle_azure_event\<close> and \<^verbatim>\<open>_process_azure_events\<close>\<close>

definition process_except :: "exn \<Rightarrow> session \<Rightarrow> process_at stretch" where
  "process_except e s =
     (s\<lparr>active := False\<rparr>, [LogError (''Error processing Azure events: '' @ str_of e)], Returned)"

text \<open>\<^verbatim>\<open>assert self.connection is not None\<close>, then the first \<^verbatim>\<open>__anext__\<close> of the \<^verbatim>\<open>async for\<close>.\<close>

definition process_begin :: "session \<Rightarrow> process_at stretch" where
  "process_begin s =
     (if connection s \<noteq> None then (s, [], Suspended At_next_event)
      else process_except (Exception []) s)"

text \<open>
  \<^verbatim>\<open>except Exception as e\<close> of \<^verbatim>\<open>_handle_azure_event\<close>: the failure is logged and the
  coroutine returns, so the \<^verbatim>\<open>async for\<close> asks for the next event.
\<close>

definition handle_except :: "exn \<Rightarrow> session \<Rightarrow> process_at stretch" where
  "handle_except e s =
     (s, [LogError (''Error handling Azure event: '' @ str_of e)], Suspended At_next_event)"

text \<open>
  \<^verbatim>\<open>_handle_azure_event\<close> up to its \<^verbatim>\<open>await self.websocket.send_json(...)\<close>, if it has one.
  With the payload missing, the first statement of the branch raises inside the \<^verbatim>\<open>try\<close>:
  \<^verbatim>\<open>event.session.id\<close> in the log line before \<^verbatim>\<open>self.session_ready = True\<close>,
  \<^verbatim>\<open>base64.b64encode(event.delta)\<close>, and \<^verbatim>\<open>event.error.message\<close> in the log line.
\<close>

fun handle_azure_event :: "session \<Rightarrow> server_event \<Rightarrow> process_at stretch" where
  "handle_azure_event s (SESSION_UPDATED sid) =
     (s\<lparr>session_ready := True\<rparr>,
      [LogInfo (''Session ready: '' @ sid),
       SendJson (JObj [(''type'', JStr ''session_ready''), (''session_id'', JStr sid)])],
      Suspended At_send_json)"
| "handle_azure_event s INPUT_AUDIO_BUFFER_SPEECH_STARTED =
     (s, [LogInfo ''User speech started'', SendJson (JObj [(''type'', JStr ''speech_started'')])],
      Suspended At_send_json)"
| "handle_azure_event s INPUT_AUDIO_BUFFER_SPEECH_STOPPED =
     (s, [LogInfo ''User speech stopped'', SendJson (JObj [(''type'', JStr ''speech_stopped'')])],
      Suspended At_send_json)"
| "handle_azure_event s RESPONSE_CREATED =
     (s, [LogInfo ''Response created'', SendJson (JObj [(''type'', JStr ''response_started'')])],
      Suspended At_send_json)"
| "handle_azure_event s (RESPONSE_AUDIO_DELTA delta) =
     (let audio_base64 = b64encode delta in
      (s, [SendJson (JObj [(''type'', JStr ''audio''), (''audio'', JStr audio_base64)])],
       Suspended At_send_json))"
| "handle_azure_event s RESPONSE_AUDIO_DONE =
     (s, [LogInfo ''Response audio done'',
          SendJson (JObj [(''type'', JStr ''response_audio_done'')])],
      Suspended At_send_json)"
| "handle_azure_event s RESPONSE_DONE =
     (s, [LogInfo ''Response complete'', SendJson (JObj [(''type'', JStr ''response_done'')])],
      Suspended At_send_json)"
| "handle_azure_event s (ERROR message) =
     (s, [LogError (''Azure error: '' @ message),
          SendJson (JObj [(''type'', JStr ''error''), (''message'', JStr message)])],
      Suspended At_send_json)"
| "handle_azure_event s (OTHER tag) = (s, [], Suspended At_next_event)"
| "handle_azure_event s SESSION_UPDATED_without_session =
     handle_except (none_attribute_error ''id'') s"
| "handle_azure_event s RESPONSE_AUDIO_DELTA_without_delta = handle_except bytes_type_error s"
| "handle_azure_event s ERROR_without_error =
     handle_except (none_attribute_error ''message'') s"

text \<open>
  The task resumes from \<^verbatim>\<open>send_json\<close> inside \<^verbatim>\<open>_handle_azure_event\<close>: its \<^verbatim>\<open>except Exception\<close>
  logs a failure, and the \<^verbatim>\<open>async for\<close> asks for the next event either way.
\<close>

fun handle_sent :: "session \<Rightarrow> unit awaited \<Rightarrow> process_at stretch" where
  "handle_sent s (Returns u) = (s, [], Suspended At_next_event)"
| "handle_sent s (Raises e) =
     (s, [LogError (''Error handling Azure event: '' @ str_of e)], Suspended At_next_event)"

text \<open>
  The task resumes from \<^verbatim>\<open>__anext__\<close>: an event (tested against \<^verbatim>\<open>self.active\<close> before it is
  handled), the end of the stream, or an exception of the stream.
\<close>

fun process_next :: "session \<Rightarrow> server_event option awaited \<Rightarrow> process_at stretch" where
  "process_next s (Returns (Some event)) =
     (if \<not> active s then (s, [], Returned) else handle_azure_event s event)"
| "process_next s (Returns None) = (s, [], Returned)"
| "process_next s (Raises e) = process_except e s"

section \<open>\<^verbatim>\<open>start\<close> and the interleaving of the three coroutines\<close>

datatype start_at = At_connect | At_session_update | At_wait | At_send_error | Finished

record config =
  sess :: session
  start_at :: start_at
  receive_task :: "receive_at task"
  process_task :: "process_at task"
  trace :: "effect list"

text \<open>\<^verbatim>\<open>start\<close> up to \<^verbatim>\<open>async with connect(...)\<close>.\<close>

definition start :: "session \<Rightarrow> config" where
  "start s =
     \<lparr>sess = s, start_at = At_connect, receive_task = Not_created, process_task = Not_created,
      trace = [LogInfo (''Starting WebSocket voice session with model '' @ model s),
               Connect (endpoint s) (model s)]\<rparr>"

definition emit :: "effect list \<Rightarrow> config \<Rightarrow> config" where
  "emit es c = c\<lparr>trace := trace c @ es\<rparr>"

definition receive_stretch :: "config \<Rightarrow> receive_at stretch \<Rightarrow> config" where
  "receive_stretch c x =
     (case x of (s, es, t) \<Rightarrow> c\<lparr>sess := s, receive_task := t, trace := trace c @ es\<rparr>)"

definition process_stretch :: "config \<Rightarrow> process_at stretch \<Rightarrow> config" where
  "process_stretch c x =
     (case x of (s, es, t) \<Rightarrow> c\<lparr>sess := s, process_task := t, trace := trace c @ es\<rparr>)"

text \<open>\<^verbatim>\<open>finally: self.active = False\<close>, after which \<^verbatim>\<open>start\<close> has returned.\<close>

definition start_finally :: "config \<Rightarrow> config" where
  "start_finally c =
     c\<lparr>sess := (sess c)\<lparr>active := False\<rparr>, start_at := Finished,
       trace := trace c @ [LogInfo ''Voice session ended'']\<rparr>"

text \<open>
  The handlers of \<^verbatim>\<open>start\<close>: a disconnect is logged; any other exception is logged and
  reported to the browser, and \<^verbatim>\<open>start\<close> is suspended in that \<^verbatim>\<open>send_json\<close>.
\<close>

fun start_except :: "exn \<Rightarrow> config \<Rightarrow> config" where
  "start_except (WebSocketDisconnect m) c =
     start_finally (emit [LogInfo ''Browser WebSocket disconnected''] c)"
| "start_except (Exception m) c =
     (emit [LogError (''Session error: '' @ m),
            SendJson (JObj [(''type'', JStr ''error''), (''message'', JStr m)])] c)
       \<lparr>start_at := At_send_error\<rparr>"

text \<open>Leaving the \<^verbatim>\<open>async with\<close> block, by its end or by an exception, closes the connection.\<close>

definition connection_exit :: "config \<Rightarrow> config" where
  "connection_exit c = emit [ConnectionClose] c"

text \<open>
  \<^verbatim>\<open>_setup_session\<close> up to \<^verbatim>\<open>await self.connection.session.update(...)\<close>. The modalities, the
  audio formats and the turn detection of the request are constants and are left out.
\<close>

definition voice_config_of :: "string \<Rightarrow> voice_config" where
  "voice_config_of v =
     (if take 3 v = ''en-'' \<or> CHR ''-'' \<in> set v then AzureStandardVoice v else OpenAIVoice v)"

definition setup_session :: "session \<Rightarrow> effect list" where
  "setup_session s =
     [LogInfo ''Setting up Azure Voice Live session...'',
      SessionUpdate (voice_config_of (voice s)) (instructions s)]"

text \<open>
  \<^verbatim>\<open>asyncio.create_task\<close> twice, then \<^verbatim>\<open>asyncio.wait\<close>: once \<^verbatim>\<open>start\<close> is suspended, each new
  task runs to its first await, in the order of creation.
\<close>

definition create_tasks :: "config \<Rightarrow> config" where
  "create_tasks c =
     (let c1 = receive_stretch c (receive_loop (sess c))
      in process_stretch c1 (process_begin (sess c1)))"

definition pending :: "'at task \<Rightarrow> bool" where
  "pending t = (case t of Suspended a \<Rightarrow> True | _ \<Rightarrow> False)"

definition is_done :: "'at task \<Rightarrow> bool" where
  "is_done t = (case t of Returned \<Rightarrow> True | Raised e \<Rightarrow> True | _ \<Rightarrow> False)"

text \<open>
  \<^verbatim>\<open>for task in pending: task.cancel(); await task\<close>. A pending task is suspended in an
  await; \<^verbatim>\<open>CancelledError\<close> is raised there, neither relay coroutine catches it (their
  handlers catch \<^verbatim>\<open>Exception\<close>), and the task ends cancelled without a further effect.
\<close>

definition cancel_pending :: "config \<Rightarrow> config" where
  "cancel_pending c =
     (let c1 = (if pending (receive_task c)
                then (emit [TaskCancel ''receive_task''] c)\<lparr>receive_task := Cancelled\<rparr> else c)
      in if pending (process_task c1)
         then (emit [TaskCancel ''process_task''] c1)\<lparr>process_task := Cancelled\<rparr> else c1)"

definition task_exception :: "'at task \<Rightarrow> exn option" where
  "task_exception t = (case t of Raised e \<Rightarrow> Some e | _ \<Rightarrow> None)"

text \<open>\<^verbatim>\<open>for task in done: if task.exception(): raise task.exception()\<close>.\<close>

definition done_exception :: "config \<Rightarrow> exn option" where
  "done_exception c =
     (case task_exception (receive_task c) of
        Some e \<Rightarrow> Some e
      | None \<Rightarrow> task_exception (process_task c))"

text \<open>
  \<^verbatim>\<open>asyncio.wait(..., return_when=FIRST_COMPLETED)\<close> returns once a task is done: the tasks
  done by then are \<^verbatim>\<open>done\<close>, the others \<^verbatim>\<open>pending\<close>.
\<close>

definition wait_returns :: "config \<Rightarrow> bool" where
  "wait_returns c =
     (start_at c = At_wait
      \<and> (is_done (receive_task c) \<or> is_done (process_task c))
      \<and> (is_done (receive_task c) \<or> pending (receive_task c))
      \<and> (is_done (process_task c) \<or> pending (process_task c)))"

definition start_waited :: "config \<Rightarrow> config" where
  "start_waited c =
     (let c1 = connection_exit (cancel_pending c)
      in case done_exception c of
           None \<Rightarrow> start_finally c1
         | Some e \<Rightarrow> start_except e c1)"

text \<open>
  One step of the event loop: a suspended coroutine resumes with the outcome of the call
  it awaits and runs to its next await. The order of the resumptions and the outcomes
  are the environment's; a resumption that no coroutine is waiting for changes nothing.
\<close>

datatype resume =
    Connected "conn awaited"
  | Configured "unit awaited"
  | Received "json awaited"
  | Forwarded "unit awaited"
  | Next_event "server_event option awaited"
  | Notified "unit awaited"
  | Waited
  | Reported "unit awaited"

fun step :: "config \<Rightarrow> resume \<Rightarrow> config" where
  "step c (Connected r) =
     (if start_at c \<noteq> At_connect then c
      else case r of
             Raises e \<Rightarrow> start_except e c
           | Returns h \<Rightarrow>
               (let s = (sess c)\<lparr>connection := Some h\<rparr>
                in (emit (setup_session s) c)\<lparr>sess := s, start_at := At_session_update\<rparr>))"
| "step c (Configured r) =
     (if start_at c \<noteq> At_session_update then c
      else case r of
             Raises e \<Rightarrow> start_except e (connection_exit c)
           | Returns u \<Rightarrow>
               create_tasks ((emit [LogInfo ''Azure session configured''] c)\<lparr>start_at := At_wait\<rparr>))"
| "step c (Received r) =
     (if receive_task c = Suspended At_receive_json
      then receive_stretch c (receive_received (sess c) r) else c)"
| "step c (Forwarded r) =
     (if receive_task c = Suspended At_upstream_command
      then receive_stretch c (receive_forwarded (sess c) r) else c)"
| "step c (Next_event r) =
     (if process_task c = Suspended At_next_event
      then process_stretch c (process_next (sess c) r) else c)"
| "step c (Notified r) =
     (if process_task c = Suspended At_send_json
      then process_stretch c (handle_sent (sess c) r) else c)"
| "step c Waited = (if wait_returns c then start_waited c else c)"
| "step c (Reported r) = (if start_at c = At_send_error then start_finally c else c)"

definition run :: "config \<Rightarrow> resume list \<Rightarrow> config" where
  "run c rs = foldl step c rs"

text \<open>The configurations an execution passes through, the first one included.\<close>

fun execution :: "config \<Rightarrow> resume list \<Rightarrow> config list" where
  "execution c [] = [c]"
| "execution c (r # rs) = c # execution (step c r) rs"

text \<open>How often a flag goes from true to false, and from false to true, along a history.\<close>

fun falls :: "bool list \<Rightarrow> nat" where
  "falls (a # b # xs) = (if a \<and> \<not> b then 1 else 0) + falls (b # xs)"
| "falls xs = 0"

fun rises :: "bool list \<Rightarrow> nat" where
  "rises (a # b # xs) = (if \<not> a \<and> b then 1 else 0) + rises (b # xs)"
| "rises xs = 0"

section \<open>The endpoint that owns the browser socket\<close>

text \<open>
  \<^verbatim>\<open>websocket_endpoint\<close>, after \<^verbatim>\<open>websocket.accept()\<close> has returned: without an endpoint or a
  key it reports the missing configuration and closes the socket (the close is reached
  when that send returned); otherwise it builds the session and awaits \<^verbatim>\<open>session.start()\<close>,
  and returns when \<^verbatim>\<open>start\<close> has returned. Neither that second branch nor \<^verbatim>\<open>start\<close>
  calls \<^verbatim>\<open>websocket.close()\<close>.
\<close>

definition configured :: "string option \<Rightarrow> bool" where
  "configured v = (case v of None \<Rightarrow> False | Some x \<Rightarrow> x \<noteq> [])"

datatype endpoint_run = Rejected "effect list" | Session "effect list" config

definition websocket_endpoint ::
  "string option \<Rightarrow> string option \<Rightarrow> string \<Rightarrow> string \<Rightarrow> string \<Rightarrow> unit awaited
     \<Rightarrow> endpoint_run" where
  "websocket_endpoint ep key m v i sent =
     (if \<not> configured ep \<or> \<not> configured key then
        Rejected
          ([WebSocketAccept, LogInfo ''Browser WebSocket connection accepted'',
            SendJson (JObj [(''type'', JStr ''error''),
              (''message'', JStr ''Server not configured. Missing Azure credentials.'')])]
           @ (case sent of Returns u \<Rightarrow> [WebSocketClose] | Raises e \<Rightarrow> []))
      else
        Session [WebSocketAccept, LogInfo ''Browser WebSocket connection accepted'']
          (start (WebSocketVoiceSession
             (''wss://'' @ (case ep of None \<Rightarrow> [] | Some x \<Rightarrow> x)
                @ ''?api-version=2024-02-15&model='' @ m) m v i)))"

section \<open>Predicates used in the statements\<close>

text \<open>A log record, as opposed to a call on a connection, on the socket or on a task.\<close>

fun is_log :: "effect \<Rightarrow> bool" where
  "is_log (LogInfo m) = True"
| "is_log (LogError m) = True"
| "is_log e = False"

text \<open>
  A relay task that exists and has not been cancelled: it is suspended in an await or
  has returned.
\<close>

definition relay_ok :: "'at task \<Rightarrow> bool" where
  "relay_ok t = (pending t \<or> t = Returned)"

text \<open>Either no upstream connection was ever opened, or it has been closed.\<close>

definition closed_if_open :: "config \<Rightarrow> bool" where
  "closed_if_open c = (connection (sess c) = None \<or> ConnectionClose \<in> set (trace c))"

text \<open>
  The shape of every configuration an execution of \<^verbatim>\<open>start\<close> reaches: before the tasks
  are created the session is active; while \<^verbatim>\<open>start\<close> waits both tasks exist and neither
  carries an exception; once \<^verbatim>\<open>start\<close> reports an error no task exists; when it has
  returned no task is pending, the flag is down and the upstream connection is closed.
  The browser socket is never closed.
\<close>

definition shaped :: "config \<Rightarrow> bool" where
  "shaped c =
     (WebSocketClose \<notin> set (trace c)
      \<and> (case start_at c of
            At_connect \<Rightarrow>
              active (sess c) \<and> connection (sess c) = None
              \<and> receive_task c = Not_created \<and> process_task c = Not_created
          | At_session_update \<Rightarrow>
              active (sess c) \<and> connection (sess c) \<noteq> None
              \<and> receive_task c = Not_created \<and> process_task c = Not_created
          | At_wait \<Rightarrow>
              relay_ok (receive_task c) \<and> relay_ok (process_task c)
              \<and> connection (sess c) \<noteq> None
          | At_send_error \<Rightarrow>
              active (sess c) \<and> receive_task c = Not_created \<and> process_task c = Not_created
              \<and> closed_if_open c
          | Finished \<Rightarrow>
              \<not> active (sess c) \<and> \<not> pending (receive_task c) \<and> \<not> pending (process_task c)
              \<and> closed_if_open c))"

text \<open>
  The receive task suspended in \<^verbatim>\<open>receive_json\<close> can still turn one message into one
  upstream command, whatever the flag has become meanwhile.
\<close>

definition slack :: "config \<Rightarrow> nat" where
  "slack c = (if receive_task c = Suspended At_receive_json then 1 else 0)"

text \<open>Effects that send nothing to the browser and close neither connection.\<close>

definition quiet :: "effect list \<Rightarrow> bool" where
  "quiet es = (notifications es = [] \<and> WebSocketClose \<notin> set es \<and> ConnectionClose \<notin> set es)"

text \<open>
  From one configuration to a later one: no notification was sent, and no more upstream
  commands were issued than the receive task's pending read allowed.
\<close>

definition quiet_after :: "config \<Rightarrow> config \<Rightarrow> bool" where
  "quiet_after c c' =
     (notifications (trace c') = notifications (trace c)
      \<and> length (commands (trace c')) + slack c' \<le> length (commands (trace c)) + slack c)"

section \<open>The sessions the endpoint runs\<close>

text \<open>
  With an endpoint and a key configured, the endpoint accepts the socket and runs
  \<^verbatim>\<open>start\<close> on a new session; so what holds of \<^verbatim>\<open>start\<close> on a new session holds of every
  session of the server.
\<close>

lemma websocket_endpoint_session:
  "configured ep \<Longrightarrow> configured key \<Longrightarrow>
     websocket_endpoint ep key m v i sent
       = Session [WebSocketAccept, LogInfo ''Browser WebSocket connection accepted'']
           (start (WebSocketVoiceSession
              (''wss://'' @ (case ep of None \<Rightarrow> [] | Some x \<Rightarrow> x)
                 @ ''?api-version=2024-02-15&model='' @ m) m v i))"
  by (simp add: websocket_endpoint_def)

lemma websocket_endpoint_rejected:
  "\<not> configured ep \<or> \<not> configured key \<Longrightarrow>
     \<exists>es. websocket_endpoint ep key m v i sent = Rejected es
       \<and> (WebSocketClose \<in> set es \<longleftrightarrow> (\<exists>u. sent = Returns u))"
  by (cases sent) (auto simp: websocket_endpoint_def)

section \<open>Base64 round trip\<close>

lemma b64_alphabet_length: "length b64_alphabet = 64"
  by (simp add: b64_alphabet_def)

lemma b64_alphabet_distinct: "distinct b64_alphabet"
  by (simp add: b64_alphabet_def)

lemma b64_value_char: "n < 64 \<Longrightarrow> b64_value (b64_char n) = Some n"
  unfolding b64_value_def b64_char_def
  using map_of_zip_nth [of b64_alphabet "[0..<64]" n]
  by (simp add: b64_alphabet_length b64_alphabet_distinct)

lemma b64_char_not_pad: "b64_char n \<noteq> CHR ''=''"
proof -
  have "CHR ''='' \<notin> set b64_alphabet" by (simp add: b64_alphabet_def)
  moreover have "b64_char n \<in> set b64_alphabet"
    unfolding b64_char_def by (rule nth_mem) (simp add: b64_alphabet_length)
  ultimately show ?thesis by metis
qed

lemma byte_bound: "unat (a :: byte) < 256"
  using unsigned_less [of a] by simp

lemma sextet_bounds:
  fixes x y z :: nat
  assumes "x < 256" "y < 256" "z < 256"
  shows "x div 4 < 64" and "x mod 4 * 16 + y div 16 < 64"
    and "y mod 16 * 4 + z div 64 < 64" and "z mod 64 < 64"
proof -
  show "x div 4 < 64" using assms by simp
  have "x mod 4 < 4" "y div 16 < 16" using assms by simp_all
  then show "x mod 4 * 16 + y div 16 < 64" by linarith
  have "y mod 16 < 16" "z div 64 < 4" using assms by simp_all
  then show "y mod 16 * 4 + z div 64 < 64" by linarith
  show "z mod 64 < 64" by simp
qed

lemma sextet_first:
  fixes x y :: nat
  assumes "y < 256"
  shows "x div 4 * 4 + (x mod 4 * 16 + y div 16) div 16 = x"
proof -
  have "y div 16 < 16" using assms by simp
  then have "(x mod 4 * 16 + y div 16) div 16 = x mod 4" by simp
  then show ?thesis by simp
qed

lemma sextet_second:
  fixes x y z :: nat
  assumes "y < 256" "z < 256"
  shows "(x mod 4 * 16 + y div 16) mod 16 * 16 + (y mod 16 * 4 + z div 64) div 4 = y"
proof -
  have "y div 16 < 16" using assms by simp
  then have 1: "(x mod 4 * 16 + y div 16) mod 16 = y div 16" by simp
  have "z div 64 < 4" using assms by simp
  then have 2: "(y mod 16 * 4 + z div 64) div 4 = y mod 16" by simp
  show ?thesis unfolding 1 2 by simp
qed

lemma sextet_third:
  fixes y z :: nat
  assumes "z < 256"
  shows "(y mod 16 * 4 + z div 64) mod 4 * 64 + z mod 64 = z"
proof -
  have "z div 64 < 4" using assms by simp
  then have 1: "(y mod 16 * 4 + z div 64) mod 4 = z div 64" by simp
  show ?thesis unfolding 1 by simp
qed

lemma quantum3_encode:
  "quantum3 (b64_char (unat a div 4)) (b64_char (unat a mod 4 * 16 + unat b div 16))
      (b64_char (unat b mod 16 * 4 + unat c div 64)) (b64_char (unat c mod 64))
   = Some [a, b, c]"
  using sextet_bounds [of "unat a" "unat b" "unat c"] sextet_first [of "unat b" "unat a"]
    sextet_second [of "unat b" "unat c" "unat a"] sextet_third [of "unat c" "unat b"]
    byte_bound [of a] byte_bound [of b] byte_bound [of c]
  by (simp add: quantum3_def b64_value_char)

lemma quantum2_encode:
  "quantum2 (b64_char (unat a div 4)) (b64_char (unat a mod 4 * 16 + unat b div 16))
      (b64_char (unat b mod 16 * 4)) = Some [a, b]"
  using sextet_bounds [of "unat a" "unat b" 0] sextet_first [of "unat b" "unat a"]
    sextet_second [of "unat b" 0 "unat a"] byte_bound [of a] byte_bound [of b]
  by (simp add: quantum2_def b64_value_char)

lemma quantum1_encode:
  "quantum1 (b64_char (unat a div 4)) (b64_char (unat a mod 4 * 16)) = Some [a]"
  using sextet_bounds [of "unat a" 0 0] sextet_first [of 0 "unat a"] byte_bound [of a]
  by (simp add: quantum1_def b64_value_char)

lemma b64_roundtrip: "b64decode (b64encode bs) = Some bs"
proof (induction bs rule: b64encode.induct)
  case 1
  show ?case by simp
next
  case (2 a)
  show ?case by (simp add: quantum1_encode)
next
  case (3 a b)
  show ?case by (simp add: quantum2_encode b64_char_not_pad)
next
  case (4 a b c rest)
  then show ?case by (simp add: quantum3_encode b64_char_not_pad)
qed

section \<open>The translation of upstream events\<close>

lemmas stretch_simps = session_of_def effects_of_def task_of_def notifications_def commands_def
  List.map_filter_simps

text \<open>
  Claim C2. \<^verbatim>\<open>_handle_azure_event\<close> sends, for each event the upstream service emits, exactly
  the notification of the table: \<open>session_ready\<close> with the session id (and the session's
  ready flag is set), \<open>speech_started\<close>, \<open>speech_stopped\<close>, \<open>response_started\<close>, \<open>audio\<close>
  with the base64 text of the delta, \<open>response_audio_done\<close>, \<open>response_done\<close>, and \<open>error\<close>
  with the message. An event with any other tag sends nothing and changes nothing. No
  event makes the coroutine raise, neither before its send nor when the send has
  returned or failed: the task asks for the next event.
\<close>

theorem handle_azure_event_notifies:
  "notifications (effects_of (handle_azure_event s (SESSION_UPDATED sid)))
     = [JObj [(''type'', JStr ''session_ready''), (''session_id'', JStr sid)]]
   \<and> session_ready (session_of (handle_azure_event s (SESSION_UPDATED sid)))
   \<and> notifications (effects_of (handle_azure_event s INPUT_AUDIO_BUFFER_SPEECH_STARTED))
     = [JObj [(''type'', JStr ''speech_started'')]]
   \<and> notifications (effects_of (handle_azure_event s INPUT_AUDIO_BUFFER_SPEECH_STOPPED))
     = [JObj [(''type'', JStr ''speech_stopped'')]]
   \<and> notifications (effects_of (handle_azure_event s RESPONSE_CREATED))
     = [JObj [(''type'', JStr ''response_started'')]]
   \<and> notifications (effects_of (handle_azure_event s (RESPONSE_AUDIO_DELTA delta)))
     = [JObj [(''type'', JStr ''audio''), (''audio'', JStr (b64encode delta))]]
   \<and> notifications (effects_of (handle_azure_event s RESPONSE_AUDIO_DONE))
     = [JObj [(''type'', JStr ''response_audio_done'')]]
   \<and> notifications (effects_of (handle_azure_event s RESPONSE_DONE))
     = [JObj [(''type'', JStr ''response_done'')]]
   \<and> notifications (effects_of (handle_azure_event s (ERROR message)))
     = [JObj [(''type'', JStr ''error''), (''message'', JStr message)]]
   \<and> handle_azure_event s (OTHER tag) = (s, [], Suspended At_next_event)
   \<and> task_of (handle_azure_event s event) \<noteq> Raised e
   \<and> task_of (handle_sent s' sent) = Suspended At_next_event"
  by (cases event; cases sent) (simp_all add: stretch_simps handle_except_def)

text \<open>
  Claim C4. For an audio delta with any payload, the empty one and long ones included,
  the text in the \<open>audio\<close> notification is the standard base64 encoding of exactly that
  payload, and standard base64 decoding of that text gives the payload back.
\<close>

theorem audio_delta_base64_roundtrip:
  "notifications (effects_of (handle_azure_event s (RESPONSE_AUDIO_DELTA delta)))
     = [JObj [(''type'', JStr ''audio''), (''audio'', JStr (b64encode delta))]]
   \<and> b64decode (b64encode delta) = Some delta"
  by (simp add: stretch_simps b64_roundtrip)

section \<open>The translation of browser messages\<close>

lemma receive_loop_plain:
  "effects_of (receive_loop s) = [] \<and> session_of (receive_loop s) = s
   \<and> task_of (receive_loop s) = (if active s then Suspended At_receive_json else Returned)"
  by (simp add: receive_loop_def stretch_simps)

text \<open>
  Claim C10. A message tagged \<open>audio\<close> whose \<open>audio\<close> field is absent, null or the empty
  string makes the receive loop issue no command and no other effect, raise nothing and
  go on to its next test of the flag, so to the next message while the session is active.
  Conversely an append command is issued only for an \<open>audio\<close> message whose payload is
  true in Python's sense while the upstream connection is set, and it carries that
  payload.
\<close>

theorem audio_without_payload_is_skipped:
  "(dict_get kvs ''type'' = JStr ''audio''
      \<and> (map_of kvs ''audio'' = None \<or> map_of kvs ''audio'' = Some JNull
           \<or> map_of kvs ''audio'' = Some (JStr []))
     \<longrightarrow> receive_message s (JObj kvs) = receive_loop s
         \<and> effects_of (receive_message s (JObj kvs)) = []
         \<and> session_of (receive_message s (JObj kvs)) = s
         \<and> (active s \<longrightarrow> task_of (receive_message s (JObj kvs)) = Suspended At_receive_json))
   \<and> (InputAudioBufferAppend a \<in> set (effects_of (receive_message s data))
     \<longrightarrow> truthy a \<and> connection s \<noteq> None
         \<and> (\<exists>kvs'. data = JObj kvs' \<and> dict_get kvs' ''type'' = JStr ''audio''
                \<and> dict_get kvs' ''audio'' = a))"
proof (intro conjI impI)
  assume a: "dict_get kvs ''type'' = JStr ''audio''
      \<and> (map_of kvs ''audio'' = None \<or> map_of kvs ''audio'' = Some JNull
           \<or> map_of kvs ''audio'' = Some (JStr []))"
  then have f: "\<not> truthy (dict_get kvs ''audio'')"
    by (auto simp: dict_get_def)
  with a show r: "receive_message s (JObj kvs) = receive_loop s"
    by (simp add: receive_message_def)
  show "effects_of (receive_message s (JObj kvs)) = []"
    and "session_of (receive_message s (JObj kvs)) = s"
    unfolding r by (simp_all add: receive_loop_plain)
  assume "active s"
  then show "task_of (receive_message s (JObj kvs)) = Suspended At_receive_json"
    unfolding r by (simp add: receive_loop_plain)
next
  assume m: "InputAudioBufferAppend a \<in> set (effects_of (receive_message s data))"
  have nl: "InputAudioBufferAppend a \<notin> set (effects_of (receive_loop s))"
    by (simp add: receive_loop_plain)
  have ne: "InputAudioBufferAppend a \<notin> set (effects_of (receive_except e s))" for e
    by (cases e) (simp_all add: stretch_simps)
  from m nl ne show "truthy a" and "connection s \<noteq> None"
    and "\<exists>kvs'. data = JObj kvs' \<and> dict_get kvs' ''type'' = JStr ''audio''
                \<and> dict_get kvs' ''audio'' = a"
    by (auto simp: receive_message_def Let_def receive_loop_def stretch_simps
        split: json.splits if_splits)
qed

theorem audio_without_payload_is_skipped_witness:
  "receive_message ((WebSocketVoiceSession ''wss://host'' ''gpt'' ''alloy'' ''Be brief.'')\<lparr>connection := Some 0\<rparr>)
      (JObj [(''type'', JStr ''audio'')])
    = ((WebSocketVoiceSession ''wss://host'' ''gpt'' ''alloy'' ''Be brief.'')\<lparr>connection := Some 0\<rparr>,
       [], Suspended At_receive_json)
   \<and> truthy (JStr ''QUJD'')"
  using audio_without_payload_is_skipped [of "[(''type'', JStr ''audio'')]"
      "(WebSocketVoiceSession ''wss://host'' ''gpt'' ''alloy'' ''Be brief.'')\<lparr>connection := Some 0\<rparr>"
      "JStr ''QUJD''" "JObj [(''type'', JStr ''audio''), (''audio'', JStr ''QUJD'')]"]
  by (simp add: dict_get_def receive_message_def receive_loop_def WebSocketVoiceSession_def
      stretch_simps)

text \<open>
  Claim C3, as the code has it. With the upstream connection set, an object tagged
  \<open>audio\<close> whose payload is true in Python's sense issues exactly one append command with
  the same payload; one whose payload is not (absent, null, empty) issues none and the
  loop goes on. Tag \<open>interrupt\<close> issues exactly one response-cancel command. Tag \<open>stop\<close>
  issues no command, sets the flag to false and ends the loop. Any other tag issues no
  command, raises nothing and goes on to the loop's next test of the flag, which
  continues with the next message while the session is active.
\<close>

theorem receive_message_translates:
  "connection s \<noteq> None \<Longrightarrow>
     (dict_get kvs ''type'' = JStr ''audio'' \<and> truthy (dict_get kvs ''audio'')
        \<longrightarrow> receive_message s (JObj kvs)
            = (s, [InputAudioBufferAppend (dict_get kvs ''audio'')], Suspended At_upstream_command))
   \<and> (dict_get kvs ''type'' = JStr ''audio'' \<and> \<not> truthy (dict_get kvs ''audio'')
        \<longrightarrow> receive_message s (JObj kvs) = receive_loop s)
   \<and> (dict_get kvs ''type'' = JStr ''interrupt''
        \<longrightarrow> commands (effects_of (receive_message s (JObj kvs))) = [ResponseCancel]
            \<and> session_of (receive_message s (JObj kvs)) = s
            \<and> task_of (receive_message s (JObj kvs)) = Suspended At_upstream_command)
   \<and> (dict_get kvs ''type'' = JStr ''stop''
        \<longrightarrow> commands (effects_of (receive_message s (JObj kvs))) = []
            \<and> \<not> active (session_of (receive_message s (JObj kvs)))
            \<and> task_of (receive_message s (JObj kvs)) = Returned)
   \<and> (dict_get kvs ''type'' \<noteq> JStr ''audio'' \<and> dict_get kvs ''type'' \<noteq> JStr ''interrupt''
      \<and> dict_get kvs ''type'' \<noteq> JStr ''stop''
        \<longrightarrow> receive_message s (JObj kvs) = receive_loop s)
   \<and> effects_of (receive_loop s) = [] \<and> session_of (receive_loop s) = s
   \<and> task_of (receive_loop s) = (if active s then Suspended At_receive_json else Returned)"
  by (simp add: receive_message_def receive_loop_def stretch_simps)

theorem receive_message_translates_witness:
  "receive_message
      ((WebSocketVoiceSession ''wss://host'' ''gpt'' ''alloy'' ''Be brief.'')\<lparr>connection := Some 0\<rparr>)
      (JObj [(''type'', JStr ''audio''), (''audio'', JStr ''QUJD'')])
     = ((WebSocketVoiceSession ''wss://host'' ''gpt'' ''alloy'' ''Be brief.'')\<lparr>connection := Some 0\<rparr>,
        [InputAudioBufferAppend (JStr ''QUJD'')], Suspended At_upstream_command)
   \<and> commands (effects_of (receive_message
      ((WebSocketVoiceSession ''wss://host'' ''gpt'' ''alloy'' ''Be brief.'')\<lparr>connection := Some 0\<rparr>)
      (JObj [(''type'', JStr ''interrupt'')]))) = [ResponseCancel]
   \<and> task_of (receive_message
      ((WebSocketVoiceSession ''wss://host'' ''gpt'' ''alloy'' ''Be brief.'')\<lparr>connection := Some 0\<rparr>)
      (JObj [(''type'', JStr ''stop'')])) = Returned
   \<and> receive_message
      ((WebSocketVoiceSession ''wss://host'' ''gpt'' ''alloy'' ''Be brief.'')\<lparr>connection := Some 0\<rparr>)
      (JObj [(''type'', JStr ''ping'')])
     = receive_loop
      ((WebSocketVoiceSession ''wss://host'' ''gpt'' ''alloy'' ''Be brief.'')\<lparr>connection := Some 0\<rparr>)
   \<and> receive_message
      ((WebSocketVoiceSession ''wss://host'' ''gpt'' ''alloy'' ''Be brief.'')\<lparr>connection := Some 0\<rparr>)
      (JObj [(''type'', JStr ''audio''), (''audio'', JNull)])
     = receive_loop
      ((WebSocketVoiceSession ''wss://host'' ''gpt'' ''alloy'' ''Be brief.'')\<lparr>connection := Some 0\<rparr>)"
proof -
  let ?s = "(WebSocketVoiceSession ''wss://host'' ''gpt'' ''alloy'' ''Be brief.'')\<lparr>connection := Some 0\<rparr>"
  have c: "connection ?s \<noteq> None" by simp
  have 1: "receive_message ?s (JObj [(''type'', JStr ''audio''), (''audio'', JStr ''QUJD'')])
     = (?s, [InputAudioBufferAppend (JStr ''QUJD'')], Suspended At_upstream_command)"
    using receive_message_translates [OF c, of "[(''type'', JStr ''audio''), (''audio'', JStr ''QUJD'')]"]
    by (simp add: dict_get_def)
  have 2: "commands (effects_of (receive_message ?s (JObj [(''type'', JStr ''interrupt'')])))
     = [ResponseCancel]"
    using receive_message_translates [OF c, of "[(''type'', JStr ''interrupt'')]"]
    by (simp add: dict_get_def)
  have 3: "task_of (receive_message ?s (JObj [(''type'', JStr ''stop'')])) = Returned"
    using receive_message_translates [OF c, of "[(''type'', JStr ''stop'')]"]
    by (simp add: dict_get_def)
  have 4: "receive_message ?s (JObj [(''type'', JStr ''ping'')]) = receive_loop ?s"
    using receive_message_translates [OF c, of "[(''type'', JStr ''ping'')]"]
    by (simp add: dict_get_def)
  have 5: "receive_message ?s (JObj [(''type'', JStr ''audio''), (''audio'', JNull)])
     = receive_loop ?s"
    using receive_message_translates [OF c, of "[(''type'', JStr ''audio''), (''audio'', JNull)]"]
    by (simp add: dict_get_def)
  show ?thesis using 1 2 3 4 5 by (simp only: simp_thms)
qed

text \<open>
  The claim as stated asks for exactly one append command for every \<open>audio\<close> message. For
  the empty payload, which is the base64 text of the empty buffer, the code issues none.
\<close>

theorem empty_audio_is_not_forwarded:
  "commands (effects_of (receive_message
      ((WebSocketVoiceSession ''wss://host'' ''gpt'' ''alloy'' ''Be brief.'')\<lparr>connection := Some 0\<rparr>)
      (JObj [(''type'', JStr ''audio''), (''audio'', JStr '''')]))) = []"
  by (simp add: dict_get_def receive_message_def receive_loop_def WebSocketVoiceSession_def
      stretch_simps)

section \<open>What each stretch of a relay task keeps\<close>

lemma notifications_append [simp]:
  "notifications (xs @ ys) = notifications xs @ notifications ys"
  by (simp add: notifications_def map_filter_def)

lemma commands_append [simp]:
  "commands (xs @ ys) = commands xs @ commands ys"
  by (simp add: commands_def map_filter_def)

lemma receive_stretch_eq:
  "receive_stretch c x
     = c\<lparr>sess := session_of x, receive_task := task_of x, trace := trace c @ effects_of x\<rparr>"
  by (cases x) (simp add: receive_stretch_def stretch_simps)

lemma process_stretch_eq:
  "process_stretch c x
     = c\<lparr>sess := session_of x, process_task := task_of x, trace := trace c @ effects_of x\<rparr>"
  by (cases x) (simp add: process_stretch_def stretch_simps)

lemma receive_loop_facts:
  "session_of (receive_loop s) = s" "effects_of (receive_loop s) = []"
  "task_of (receive_loop s) = (if active s then Suspended At_receive_json else Returned)"
  by (simp_all add: receive_loop_def stretch_simps)

lemma receive_except_facts:
  "session_of (receive_except e s) = s\<lparr>active := False\<rparr>"
  "task_of (receive_except e s) = Returned"
  "length (effects_of (receive_except e s)) = 1"
  "list_all is_log (effects_of (receive_except e s))"
  by (cases e; simp add: stretch_simps)+

lemma log_quiet: "list_all is_log es \<Longrightarrow> quiet es \<and> commands es = []"
proof (induction es)
  case Nil
  show ?case by (simp add: quiet_def stretch_simps)
next
  case (Cons x xs)
  then show ?case by (cases x) (simp_all add: quiet_def stretch_simps)
qed

lemma receive_message_facts:
  "connection (session_of (receive_message s d)) = connection s"
  "session_ready (session_of (receive_message s d)) = session_ready s"
  "active (session_of (receive_message s d)) \<longrightarrow> active s"
  "relay_ok (task_of (receive_message s d))"
  "quiet (effects_of (receive_message s d))"
  "length (commands (effects_of (receive_message s d))) \<le> 1"
  "\<not> active s \<longrightarrow> task_of (receive_message s d) \<noteq> Suspended At_receive_json"
  "task_of (receive_message s d) = Returned \<longrightarrow> \<not> active (session_of (receive_message s d))"
  by (cases d; simp add: receive_message_def receive_loop_def attribute_error_def Let_def
      stretch_simps relay_ok_def pending_def quiet_def)+

lemma receive_received_facts:
  "connection (session_of (receive_received s r)) = connection s"
  "session_ready (session_of (receive_received s r)) = session_ready s"
  "active (session_of (receive_received s r)) \<longrightarrow> active s"
  "relay_ok (task_of (receive_received s r))"
  "quiet (effects_of (receive_received s r))"
  "length (commands (effects_of (receive_received s r))) \<le> 1"
  "\<not> active s \<longrightarrow> task_of (receive_received s r) \<noteq> Suspended At_receive_json"
proof -
  have "connection (session_of (receive_received s r)) = connection s
    \<and> session_ready (session_of (receive_received s r)) = session_ready s
    \<and> (active (session_of (receive_received s r)) \<longrightarrow> active s)
    \<and> relay_ok (task_of (receive_received s r))
    \<and> quiet (effects_of (receive_received s r))
    \<and> length (commands (effects_of (receive_received s r))) \<le> 1
    \<and> (\<not> active s \<longrightarrow> task_of (receive_received s r) \<noteq> Suspended At_receive_json)"
  proof (cases r)
    case (Returns d)
    show ?thesis unfolding Returns receive_received.simps
      using receive_message_facts [of s d] by blast
  next
    case (Raises e)
    show ?thesis unfolding Raises receive_received.simps
      using receive_except_facts [of e s] log_quiet [of "effects_of (receive_except e s)"]
      by (simp add: relay_ok_def)
  qed
  then show
    "connection (session_of (receive_received s r)) = connection s"
    "session_ready (session_of (receive_received s r)) = session_ready s"
    "active (session_of (receive_received s r)) \<longrightarrow> active s"
    "relay_ok (task_of (receive_received s r))"
    "quiet (effects_of (receive_received s r))"
    "length (commands (effects_of (receive_received s r))) \<le> 1"
    "\<not> active s \<longrightarrow> task_of (receive_received s r) \<noteq> Suspended At_receive_json"
    by blast+
qed

lemma receive_forwarded_facts:
  "connection (session_of (receive_forwarded s r)) = connection s"
  "session_ready (session_of (receive_forwarded s r)) = session_ready s"
  "active (session_of (receive_forwarded s r)) \<longrightarrow> active s"
  "relay_ok (task_of (receive_forwarded s r))"
  "quiet (effects_of (receive_forwarded s r))"
  "commands (effects_of (receive_forwarded s r)) = []"
  "task_of (receive_forwarded s r) \<noteq> Suspended At_upstream_command"
  "\<not> active s \<longrightarrow> task_of (receive_forwarded s r) = Returned"
proof -
  have "connection (session_of (receive_forwarded s r)) = connection s
    \<and> session_ready (session_of (receive_forwarded s r)) = session_ready s
    \<and> (active (session_of (receive_forwarded s r)) \<longrightarrow> active s)
    \<and> relay_ok (task_of (receive_forwarded s r))
    \<and> quiet (effects_of (receive_forwarded s r))
    \<and> commands (effects_of (receive_forwarded s r)) = []
    \<and> task_of (receive_forwarded s r) \<noteq> Suspended At_upstream_command
    \<and> (\<not> active s \<longrightarrow> task_of (receive_forwarded s r) = Returned)"
  proof (cases r)
    case (Returns d)
    show ?thesis unfolding Returns receive_forwarded.simps
      by (simp add: receive_loop_def relay_ok_def pending_def quiet_def stretch_simps)
  next
    case (Raises e)
    show ?thesis unfolding Raises receive_forwarded.simps
      using receive_except_facts [of e s] log_quiet [of "effects_of (receive_except e s)"]
      by (simp add: relay_ok_def)
  qed
  then show
    "connection (session_of (receive_forwarded s r)) = connection s"
    "session_ready (session_of (receive_forwarded s r)) = session_ready s"
    "active (session_of (receive_forwarded s r)) \<longrightarrow> active s"
    "relay_ok (task_of (receive_forwarded s r))"
    "quiet (effects_of (receive_forwarded s r))"
    "commands (effects_of (receive_forwarded s r)) = []"
    "task_of (receive_forwarded s r) \<noteq> Suspended At_upstream_command"
    "\<not> active s \<longrightarrow> task_of (receive_forwarded s r) = Returned"
    by blast+
qed

lemma process_except_facts:
  "session_of (process_except e s) = s\<lparr>active := False\<rparr>"
  "task_of (process_except e s) = Returned"
  "effects_of (process_except e s) = [LogError (''Error processing Azure events: '' @ str_of e)]"
  by (simp_all add: process_except_def stretch_simps)

lemma handle_azure_event_facts:
  "connection (session_of (handle_azure_event s ev)) = connection s"
  "active (session_of (handle_azure_event s ev)) = active s"
  "session_ready s \<longrightarrow> session_ready (session_of (handle_azure_event s ev))"
  "pending (task_of (handle_azure_event s ev))"
  "WebSocketClose \<notin> set (effects_of (handle_azure_event s ev))"
  "ConnectionClose \<notin> set (effects_of (handle_azure_event s ev))"
  "commands (effects_of (handle_azure_event s ev)) = []"
  by (cases ev; simp add: stretch_simps pending_def handle_except_def)+

lemma process_next_facts:
  "connection (session_of (process_next s r)) = connection s"
  "active (session_of (process_next s r)) \<longrightarrow> active s"
  "session_ready s \<longrightarrow> session_ready (session_of (process_next s r))"
  "relay_ok (task_of (process_next s r))"
  "WebSocketClose \<notin> set (effects_of (process_next s r))"
  "ConnectionClose \<notin> set (effects_of (process_next s r))"
  "commands (effects_of (process_next s r)) = []"
  "\<not> active s \<longrightarrow> notifications (effects_of (process_next s r)) = []"
proof -
  have "connection (session_of (process_next s r)) = connection s
    \<and> (active (session_of (process_next s r)) \<longrightarrow> active s)
    \<and> (session_ready s \<longrightarrow> session_ready (session_of (process_next s r)))
    \<and> relay_ok (task_of (process_next s r))
    \<and> WebSocketClose \<notin> set (effects_of (process_next s r))
    \<and> ConnectionClose \<notin> set (effects_of (process_next s r))
    \<and> commands (effects_of (process_next s r)) = []
    \<and> (\<not> active s \<longrightarrow> notifications (effects_of (process_next s r)) = [])"
  proof (cases r)
    case (Raises e)
    show ?thesis unfolding Raises process_next.simps
      by (simp add: process_except_def relay_ok_def stretch_simps)
  next
    case (Returns ev_opt)
    show ?thesis
    proof (cases ev_opt)
      case None
      show ?thesis unfolding Returns None process_next.simps
        by (simp add: relay_ok_def stretch_simps)
    next
      case (Some ev)
      show ?thesis
      proof (cases "active s")
        case True
        have "process_next s r = handle_azure_event s ev"
          using True by (simp add: Returns Some)
        then show ?thesis using handle_azure_event_facts [of s ev] True
          by (simp add: relay_ok_def)
      next
        case False
        then show ?thesis unfolding Returns Some process_next.simps
          by (simp add: relay_ok_def stretch_simps)
      qed
    qed
  qed
  then show
    "connection (session_of (process_next s r)) = connection s"
    "active (session_of (process_next s r)) \<longrightarrow> active s"
    "session_ready s \<longrightarrow> session_ready (session_of (process_next s r))"
    "relay_ok (task_of (process_next s r))"
    "WebSocketClose \<notin> set (effects_of (process_next s r))"
    "ConnectionClose \<notin> set (effects_of (process_next s r))"
    "commands (effects_of (process_next s r)) = []"
    "\<not> active s \<longrightarrow> notifications (effects_of (process_next s r)) = []"
    by blast+
qed

lemma handle_sent_facts:
  "session_of (handle_sent s r) = s"
  "task_of (handle_sent s r) = Suspended At_next_event"
  "quiet (effects_of (handle_sent s r))"
  "commands (effects_of (handle_sent s r)) = []"
  by (cases r; simp add: stretch_simps quiet_def)+

lemma shaped_pending_wait:
  "shaped c \<Longrightarrow> pending (receive_task c) \<or> pending (process_task c) \<Longrightarrow> start_at c = At_wait"
  by (cases "start_at c") (auto simp: shaped_def pending_def)

lemma shaped_received: 
  assumes "shaped c" shows "shaped (step c (Received r))"
proof (cases "receive_task c = Suspended At_receive_json")
  case False
  then show ?thesis using assms by simp
next
  case True
  then have w: "start_at c = At_wait" using assms shaped_pending_wait [of c] by (simp add: pending_def)
  show ?thesis using assms True w receive_received_facts [of "sess c" r]
    by (simp add: shaped_def receive_stretch_eq quiet_def)
qed

lemma shaped_forwarded: 
  assumes "shaped c" shows "shaped (step c (Forwarded r))"
proof (cases "receive_task c = Suspended At_upstream_command")
  case False
  then show ?thesis using assms by simp
next
  case True
  then have w: "start_at c = At_wait" using assms shaped_pending_wait [of c] by (simp add: pending_def)
  show ?thesis using assms True w receive_forwarded_facts [of "sess c" r]
    by (simp add: shaped_def receive_stretch_eq quiet_def)
qed

lemma shaped_next_event: 
  assumes "shaped c" shows "shaped (step c (Next_event r))"
proof (cases "process_task c = Suspended At_next_event")
  case False
  then show ?thesis using assms by simp
next
  case True
  then have w: "start_at c = At_wait" using assms shaped_pending_wait [of c] by (simp add: pending_def)
  show ?thesis using assms True w process_next_facts [of "sess c" r]
    by (simp add: shaped_def process_stretch_eq)
qed

lemma shaped_notified: 
  assumes "shaped c" shows "shaped (step c (Notified r))"
proof (cases "process_task c = Suspended At_send_json")
  case False
  then show ?thesis using assms by simp
next
  case True
  then have w: "start_at c = At_wait" using assms shaped_pending_wait [of c] by (simp add: pending_def)
  show ?thesis using assms True w handle_sent_facts [of "sess c" r]
    by (simp add: shaped_def process_stretch_eq quiet_def relay_ok_def pending_def)
qed

section \<open>The shape of reachable configurations\<close>

lemma start_finally_simps [simp]:
  "sess (start_finally c) = (sess c)\<lparr>active := False\<rparr>"
  "start_at (start_finally c) = Finished"
  "receive_task (start_finally c) = receive_task c"
  "process_task (start_finally c) = process_task c"
  "trace (start_finally c) = trace c @ [LogInfo ''Voice session ended'']"
  by (simp_all add: start_finally_def)

lemma emit_simps [simp]:
  "sess (emit es c) = sess c"
  "start_at (emit es c) = start_at c"
  "receive_task (emit es c) = receive_task c"
  "process_task (emit es c) = process_task c"
  "trace (emit es c) = trace c @ es"
  by (simp_all add: emit_def)

lemma start_except_simps:
  "sess (start_except e c) = (case e of WebSocketDisconnect m \<Rightarrow> (sess c)\<lparr>active := False\<rparr>
                                | Exception m \<Rightarrow> sess c)"
  "start_at (start_except e c) = (case e of WebSocketDisconnect m \<Rightarrow> Finished
                                | Exception m \<Rightarrow> At_send_error)"
  "receive_task (start_except e c) = receive_task c"
  "process_task (start_except e c) = process_task c"
  "trace (start_except e c) = trace c @
     (case e of WebSocketDisconnect m \<Rightarrow>
          [LogInfo ''Browser WebSocket disconnected'', LogInfo ''Voice session ended'']
      | Exception m \<Rightarrow>
          [LogError (''Session error: '' @ m),
           SendJson (JObj [(''type'', JStr ''error''), (''message'', JStr m)])])"
  by (cases e; simp)+

lemma cancel_pending_simps:
  "sess (cancel_pending c) = sess c"
  "start_at (cancel_pending c) = start_at c"
  "receive_task (cancel_pending c) = (if pending (receive_task c) then Cancelled else receive_task c)"
  "process_task (cancel_pending c) = (if pending (process_task c) then Cancelled else process_task c)"
  "trace (cancel_pending c) = trace c
     @ (if pending (receive_task c) then [TaskCancel ''receive_task''] else [])
     @ (if pending (process_task c) then [TaskCancel ''process_task''] else [])"
  by (simp_all add: cancel_pending_def Let_def)

lemma create_tasks_shaped:
  assumes "connection (sess c) \<noteq> None" and "active (sess c)"
  shows "create_tasks c
    = c\<lparr>receive_task := Suspended At_receive_json, process_task := Suspended At_next_event\<rparr>"
  using assms
  by (simp add: create_tasks_def Let_def receive_loop_def process_begin_def receive_stretch_def
      process_stretch_def)

lemma shaped_connected:
  assumes "shaped c" shows "shaped (step c (Connected r))"
proof (cases "start_at c = At_connect")
  case False
  then show ?thesis using assms by simp
next
  case True
  show ?thesis
  proof (cases r)
    case (Returns h)
    show ?thesis using assms True
      by (simp add: Returns shaped_def Let_def setup_session_def)
  next
    case (Raises e)
    show ?thesis using assms True
      by (cases e) (simp_all add: Raises shaped_def closed_if_open_def pending_def)
  qed
qed

lemma shaped_configured:
  assumes "shaped c" shows "shaped (step c (Configured r))"
proof (cases "start_at c = At_session_update")
  case False
  then show ?thesis using assms by simp
next
  case True
  show ?thesis
  proof (cases r)
    case (Returns u)
    have "step c (Configured r)
      = (emit [LogInfo ''Azure session configured''] c)
          \<lparr>start_at := At_wait, receive_task := Suspended At_receive_json,
            process_task := Suspended At_next_event\<rparr>"
      using assms True by (simp add: Returns create_tasks_shaped shaped_def)
    then show ?thesis using assms True
      by (simp add: shaped_def relay_ok_def pending_def)
  next
    case (Raises e)
    show ?thesis using assms True
      by (cases e)
        (simp_all add: Raises shaped_def closed_if_open_def pending_def connection_exit_def)
  qed
qed

lemma shaped_no_exception:
  "shaped c \<Longrightarrow> start_at c = At_wait \<Longrightarrow> done_exception c = None"
  by (auto simp: shaped_def relay_ok_def pending_def done_exception_def task_exception_def
      split: task.splits)

lemma shaped_waited_eq:
  assumes "shaped c" and "wait_returns c"
  shows "step c Waited = start_finally (connection_exit (cancel_pending c))"
  using assms shaped_no_exception [of c]
  by (simp add: start_waited_def wait_returns_def Let_def)

lemma shaped_waited:
  assumes "shaped c" shows "shaped (step c Waited)"
proof (cases "wait_returns c")
  case False
  then show ?thesis using assms by simp
next
  case True
  then have w: "start_at c = At_wait" by (simp add: wait_returns_def)
  show ?thesis unfolding shaped_waited_eq [OF assms True] using assms w
    by (simp add: shaped_def connection_exit_def cancel_pending_simps closed_if_open_def
        pending_def)
qed

lemma shaped_reported:
  assumes "shaped c" shows "shaped (step c (Reported r))"
  using assms
  by (cases "start_at c = At_send_error") (simp_all add: shaped_def closed_if_open_def pending_def)

lemma shaped_step: "shaped c \<Longrightarrow> shaped (step c r)"
  by (cases r)
    (simp_all only: shaped_connected shaped_configured shaped_received shaped_forwarded
      shaped_next_event shaped_notified shaped_waited shaped_reported)

lemma shaped_run: "shaped c \<Longrightarrow> shaped (run c rs)"
  unfolding run_def by (induction rs arbitrary: c) (simp_all add: shaped_step)

lemma shaped_start: "shaped (start (WebSocketVoiceSession e m v i))"
  by (simp add: shaped_def start_def WebSocketVoiceSession_def)

lemma run_append: "run c (rs @ rs') = run (run c rs) rs'"
  by (simp add: run_def)

section \<open>The flags move one way\<close>

lemma create_tasks_flags:
  "active (sess (create_tasks c)) \<longrightarrow> active (sess c)"
  "session_ready (sess (create_tasks c)) = session_ready (sess c)"
  by (simp_all add: create_tasks_def Let_def receive_loop_def process_begin_def
      process_except_def receive_stretch_def process_stretch_def)

lemma start_waited_flags:
  "\<not> active (sess (start_waited c)) \<or> active (sess c)"
  "session_ready (sess (start_waited c)) = session_ready (sess c)"
  by (simp_all add: start_waited_def Let_def connection_exit_def cancel_pending_simps
      start_except_simps split: option.splits exn.splits)

lemma active_connected: "active (sess (step c (Connected x))) \<Longrightarrow> active (sess c)"
proof (cases "start_at c = At_connect")
  case False
  assume "active (sess (step c (Connected x)))"
  then show ?thesis using False by simp
next
  case True
  assume a: "active (sess (step c (Connected x)))"
  show ?thesis
  proof (cases x)
    case (Returns h)
    show ?thesis using a True by (simp add: Returns Let_def)
  next
    case (Raises e)
    show ?thesis using a True by (cases e) (simp_all add: Raises emit_def)
  qed
qed

lemma active_configured: "active (sess (step c (Configured x))) \<Longrightarrow> active (sess c)"
proof (cases "start_at c = At_session_update")
  case False
  assume "active (sess (step c (Configured x)))"
  then show ?thesis using False by simp
next
  case True
  assume a: "active (sess (step c (Configured x)))"
  show ?thesis
  proof (cases x)
    case (Returns u)
    have "active (sess (create_tasks
        ((emit [LogInfo ''Azure session configured''] c)\<lparr>start_at := At_wait\<rparr>)))"
      using a True by (simp add: Returns)
    then have "active (sess ((emit [LogInfo ''Azure session configured''] c)\<lparr>start_at := At_wait\<rparr>))"
      using create_tasks_flags(1) by blast
    then show ?thesis by simp
  next
    case (Raises e)
    show ?thesis using a True
      by (cases e) (simp_all add: Raises emit_def connection_exit_def)
  qed
qed

lemma active_waited: "active (sess (step c Waited)) \<Longrightarrow> active (sess c)"
proof (cases "wait_returns c")
  case False
  assume "active (sess (step c Waited))"
  then show ?thesis using False by simp
next
  case True
  assume "active (sess (step c Waited))"
  then have "active (sess (start_waited c))" using True by simp
  then show ?thesis using start_waited_flags(1) [of c] by blast
qed

lemma active_step: "active (sess (step c r)) \<Longrightarrow> active (sess c)"
proof (cases r)
  case (Connected x)
  assume "active (sess (step c r))"
  then show ?thesis unfolding Connected by (rule active_connected)
next
  case (Configured x)
  assume "active (sess (step c r))"
  then show ?thesis unfolding Configured by (rule active_configured)
next
  case (Received x)
  assume a: "active (sess (step c r))"
  show ?thesis
  proof (cases "receive_task c = Suspended At_receive_json")
    case True
    then show ?thesis using a receive_received_facts(3) [of "sess c" x]
      by (simp add: Received receive_stretch_eq)
  next
    case False
    then show ?thesis using a by (simp add: Received)
  qed
next
  case (Forwarded x)
  assume a: "active (sess (step c r))"
  show ?thesis
  proof (cases "receive_task c = Suspended At_upstream_command")
    case True
    then show ?thesis using a receive_forwarded_facts(3) [of "sess c" x]
      by (simp add: Forwarded receive_stretch_eq)
  next
    case False
    then show ?thesis using a by (simp add: Forwarded)
  qed
next
  case (Next_event x)
  assume a: "active (sess (step c r))"
  show ?thesis
  proof (cases "process_task c = Suspended At_next_event")
    case True
    then show ?thesis using a process_next_facts(2) [of "sess c" x]
      by (simp add: Next_event process_stretch_eq)
  next
    case False
    then show ?thesis using a by (simp add: Next_event)
  qed
next
  case (Notified x)
  assume a: "active (sess (step c r))"
  show ?thesis
  proof (cases "process_task c = Suspended At_send_json")
    case True
    then show ?thesis using a
      by (simp add: Notified process_stretch_eq handle_sent_facts)
  next
    case False
    then show ?thesis using a by (simp add: Notified)
  qed
next
  case Waited
  assume "active (sess (step c r))"
  then show ?thesis unfolding Waited by (rule active_waited)
next
  case (Reported x)
  assume a: "active (sess (step c r))"
  show ?thesis
  proof (cases "start_at c = At_send_error")
    case True
    then show ?thesis using a by (simp add: Reported)
  next
    case False
    then show ?thesis using a by (simp add: Reported)
  qed
qed

lemma ready_unchanged:
  "(\<forall>x. r \<noteq> Next_event x) \<Longrightarrow> session_ready (sess (step c r)) = session_ready (sess c)"
proof (cases r)
  case (Connected x)
  show ?thesis unfolding Connected
    by (simp add: Let_def start_except_simps split: awaited.splits exn.splits)
next
  case (Configured x)
  show ?thesis unfolding Configured
    by (simp add: create_tasks_flags start_except_simps connection_exit_def
        split: awaited.splits exn.splits)
next
  case (Received x)
  show ?thesis unfolding Received
    by (simp add: receive_stretch_eq receive_received_facts)
next
  case (Forwarded x)
  show ?thesis unfolding Forwarded
    by (simp add: receive_stretch_eq receive_forwarded_facts)
next
  case (Next_event x)
  assume "\<forall>x. r \<noteq> Next_event x"
  then show ?thesis using Next_event by simp
next
  case (Notified x)
  show ?thesis unfolding Notified
    by (simp add: process_stretch_eq handle_sent_facts)
next
  case Waited
  show ?thesis unfolding Waited by (simp add: start_waited_flags)
next
  case (Reported x)
  show ?thesis unfolding Reported by simp
qed

lemma ready_step: "session_ready (sess c) \<Longrightarrow> session_ready (sess (step c r))"
proof (cases "\<exists>x. r = Next_event x")
  case True
  then obtain x where r: "r = Next_event x" by blast
  assume "session_ready (sess c)"
  then show ?thesis unfolding r using process_next_facts(3) [of "sess c" x]
    by (simp add: process_stretch_eq)
next
  case False
  assume "session_ready (sess c)"
  then show ?thesis using ready_unchanged [of r c] False by simp
qed

lemma active_run: "active (sess (run c rs)) \<Longrightarrow> active (sess c)"
  unfolding run_def
proof (induction rs arbitrary: c)
  case Nil
  then show ?case by simp
next
  case (Cons r rs)
  then show ?case using active_step [of c r] by simp
qed

lemma execution_head: "\<exists>cs. execution c rs = c # cs"
  by (cases rs) simp_all

lemma rises_execution: "rises (map (active \<circ> sess) (execution c rs)) = 0"
proof (induction rs arbitrary: c)
  case Nil
  show ?case by simp
next
  case (Cons r rs)
  obtain cs where cs: "execution (step c r) rs = step c r # cs"
    using execution_head by blast
  show ?case using Cons [of "step c r"] active_step [of c r] by (auto simp: cs)
qed

lemma falls_execution:
  "falls (map (active \<circ> sess) (execution c rs))
     = (if active (sess c) \<and> \<not> active (sess (run c rs)) then 1 else 0)"
proof (induction rs arbitrary: c)
  case Nil
  show ?case by (simp add: run_def)
next
  case (Cons r rs)
  obtain cs where cs: "execution (step c r) rs = step c r # cs"
    using execution_head by blast
  have r: "run c (r # rs) = run (step c r) rs" by (simp add: run_def)
  have 1: "active (sess (step c r)) \<longrightarrow> active (sess c)"
    using active_step [of c r] by blast
  have 2: "active (sess (run (step c r) rs)) \<longrightarrow> active (sess (step c r))"
    using active_run [of "step c r" rs] by blast
  have "falls (map (active \<circ> sess) (execution c (r # rs)))
      = (if active (sess c) \<and> \<not> active (sess (step c r)) then 1 else 0)
        + falls (map (active \<circ> sess) (execution (step c r) rs))"
    by (simp add: cs)
  also have "\<dots> = (if active (sess c) \<and> \<not> active (sess (step c r)) then 1 else 0)
        + (if active (sess (step c r)) \<and> \<not> active (sess (run (step c r) rs)) then 1 else 0)"
    by (simp only: Cons.IH)
  also have "\<dots> = (if active (sess c) \<and> \<not> active (sess (run (step c r) rs)) then 1 else 0)"
    using 1 2 by (cases "active (sess c)"; cases "active (sess (step c r))";
        cases "active (sess (run (step c r) rs))") simp_all
  finally show ?case unfolding r .
qed

section \<open>After the flag is down\<close>

lemma shaped_inactive:
  "shaped c \<Longrightarrow> \<not> active (sess c) \<Longrightarrow> start_at c = At_wait \<or> start_at c = Finished"
  by (cases "start_at c") (simp_all add: shaped_def)

lemma shaped_finished_idle:
  "shaped c \<Longrightarrow> start_at c = Finished \<Longrightarrow> step c r = c"
  by (cases r) (auto simp: shaped_def pending_def wait_returns_def)

lemma waited_trace:
  assumes "shaped c" and "wait_returns c"
  shows "trace (step c Waited) = trace c
     @ (if pending (receive_task c) then [TaskCancel ''receive_task''] else [])
     @ (if pending (process_task c) then [TaskCancel ''process_task''] else [])
     @ [ConnectionClose, LogInfo ''Voice session ended'']"
  unfolding shaped_waited_eq [OF assms]
  by (simp add: connection_exit_def cancel_pending_simps)

lemma waited_tasks:
  assumes "shaped c" and "wait_returns c"
  shows "receive_task (step c Waited)
      = (if pending (receive_task c) then Cancelled else receive_task c)"
    and "process_task (step c Waited)
      = (if pending (process_task c) then Cancelled else process_task c)"
    and "start_at (step c Waited) = Finished"
  unfolding shaped_waited_eq [OF assms]
  by (simp_all add: connection_exit_def cancel_pending_simps)

lemma notifications_simps [simp]:
  "notifications [] = []"
  "notifications (x # xs)
     = (case notification_of x of None \<Rightarrow> notifications xs | Some j \<Rightarrow> j # notifications xs)"
  by (simp_all add: notifications_def List.map_filter_simps split: option.splits)

lemma commands_simps [simp]:
  "commands [] = []"
  "commands (x # xs)
     = (case command_of x of None \<Rightarrow> commands xs | Some j \<Rightarrow> j # commands xs)"
  by (simp_all add: commands_def List.map_filter_simps split: option.splits)

lemma quiet_after_refl: "quiet_after c c"
  by (simp add: quiet_after_def)

lemma quiet_after_trans: "quiet_after a b \<Longrightarrow> quiet_after b c \<Longrightarrow> quiet_after a c"
  by (simp add: quiet_after_def)

lemma quiet_step:
  assumes s: "shaped c" and a: "\<not> active (sess c)"
  shows "quiet_after c (step c r)"
proof (cases "start_at c = Finished")
  case True
  show ?thesis unfolding shaped_finished_idle [OF s True] by (rule quiet_after_refl)
next
  case False
  then have w: "start_at c = At_wait" using shaped_inactive [OF s a] by simp
  show ?thesis
  proof (cases r)
    case (Connected x)
    show ?thesis using w by (simp add: Connected quiet_after_refl)
  next
    case (Configured x)
    show ?thesis using w by (simp add: Configured quiet_after_refl)
  next
    case (Reported x)
    show ?thesis using w by (simp add: Reported quiet_after_refl)
  next
    case (Received x)
    show ?thesis
    proof (cases "receive_task c = Suspended At_receive_json")
      case False
      then show ?thesis by (simp add: Received quiet_after_refl)
    next
      case True
      then show ?thesis using a receive_received_facts(5,6,7) [of "sess c" x]
        by (simp add: Received receive_stretch_eq quiet_after_def slack_def quiet_def)
    qed
  next
    case (Forwarded x)
    show ?thesis
    proof (cases "receive_task c = Suspended At_upstream_command")
      case False
      then show ?thesis by (simp add: Forwarded quiet_after_refl)
    next
      case True
      then show ?thesis using a receive_forwarded_facts(5,6,8) [of "sess c" x]
        by (simp add: Forwarded receive_stretch_eq quiet_after_def slack_def quiet_def)
    qed
  next
    case (Next_event x)
    show ?thesis
    proof (cases "process_task c = Suspended At_next_event")
      case False
      then show ?thesis by (simp add: Next_event quiet_after_refl)
    next
      case True
      then show ?thesis using a process_next_facts(7,8) [of "sess c" x]
        by (simp add: Next_event process_stretch_eq quiet_after_def slack_def)
    qed
  next
    case (Notified x)
    show ?thesis
    proof (cases "process_task c = Suspended At_send_json")
      case False
      then show ?thesis by (simp add: Notified quiet_after_refl)
    next
      case True
      then show ?thesis using handle_sent_facts(3,4) [of "sess c" x]
        by (simp add: Notified process_stretch_eq quiet_after_def slack_def quiet_def)
    qed
  next
    case Waited
    show ?thesis
    proof (cases "wait_returns c")
      case False
      then show ?thesis by (simp add: Waited quiet_after_refl)
    next
      case True
      have t: "trace (step c Waited) = trace c
          @ (if pending (receive_task c) then [TaskCancel ''receive_task''] else [])
          @ (if pending (process_task c) then [TaskCancel ''process_task''] else [])
          @ [ConnectionClose, LogInfo ''Voice session ended'']"
        using s True by (rule waited_trace)
      have k: "receive_task (step c Waited)
          = (if pending (receive_task c) then Cancelled else receive_task c)"
        using s True by (rule waited_tasks(1))
      show ?thesis unfolding Waited quiet_after_def slack_def t k
        by (simp add: pending_def)
    qed
  qed
qed

lemma quiet_run:
  "shaped c \<Longrightarrow> \<not> active (sess c) \<Longrightarrow> quiet_after c (run c rs)"
proof (induction rs arbitrary: c)
  case Nil
  show ?case by (simp add: run_def quiet_after_refl)
next
  case (Cons r rs)
  have r: "run c (r # rs) = run (step c r) rs" by (simp add: run_def)
  have 1: "quiet_after c (step c r)" using Cons.prems by (rule quiet_step)
  have 2: "shaped (step c r)" using Cons.prems(1) by (rule shaped_step)
  have 3: "\<not> active (sess (step c r))" using Cons.prems(2) active_step [of c r] by blast
  show ?case unfolding r using 1 Cons.IH [OF 2 3] by (rule quiet_after_trans)
qed

text \<open>
  Claim C6, as the code has it. Once the flag is false in an execution of \<^verbatim>\<open>start\<close>, no
  notification is sent to the browser any more, the flag stays false, and at most one
  further command reaches the upstream connection: the translation of the one message
  whose read the receive loop was already awaiting when the flag went down. The receive
  loop tests the flag before each read, not after it; the upstream loop tests it after
  each read.
\<close>

theorem inactive_session_is_nearly_silent:
  "c = run (start (WebSocketVoiceSession e m v i)) rs \<Longrightarrow> \<not> active (sess c) \<Longrightarrow>
     notifications (trace (run c rs')) = notifications (trace c)
     \<and> length (commands (trace (run c rs')))
         \<le> length (commands (trace c))
            + (if receive_task c = Suspended At_receive_json then 1 else 0)
     \<and> \<not> active (sess (run c rs'))"
proof -
  assume c: "c = run (start (WebSocketVoiceSession e m v i)) rs" and a: "\<not> active (sess c)"
  have s: "shaped c" unfolding c using shaped_start by (rule shaped_run)
  have "quiet_after c (run c rs')" using s a by (rule quiet_run)
  moreover have "\<not> active (sess (run c rs'))" using a active_run [of c rs'] by blast
  ultimately show ?thesis by (simp add: quiet_after_def slack_def)
qed

theorem inactive_session_is_nearly_silent_witness:
  "notifications (trace (run (run (start (WebSocketVoiceSession ''wss://host'' ''gpt'' ''alloy'' ''Be brief.''))
      [Connected (Returns 0), Configured (Returns ()),
       Next_event (Raises (Exception ''connection lost''))])
      [Received (Returns (JObj [(''type'', JStr ''audio''), (''audio'', JStr ''QUJD'')])),
       Next_event (Returns (Some RESPONSE_DONE)), Forwarded (Returns ()), Waited]))
    = notifications (trace (run (start (WebSocketVoiceSession ''wss://host'' ''gpt'' ''alloy'' ''Be brief.''))
      [Connected (Returns 0), Configured (Returns ()),
       Next_event (Raises (Exception ''connection lost''))]))"
proof -
  have h: "\<not> active (sess (run (start (WebSocketVoiceSession ''wss://host'' ''gpt'' ''alloy'' ''Be brief.''))
      [Connected (Returns 0), Configured (Returns ()),
       Next_event (Raises (Exception ''connection lost''))]))"
    by code_simp
  show ?thesis using inactive_session_is_nearly_silent [OF refl h] by blast
qed

text \<open>
  The upstream stream fails, the upstream loop sets the flag to false and returns. Before
  \<^verbatim>\<open>start\<close> resumes from its wait, the read the receive task awaits completes with an
  audio message: the task forwards it although the flag is false.
\<close>

theorem pending_read_forwards_after_inactive:
  "\<not> active (sess (run (start (WebSocketVoiceSession ''wss://host'' ''gpt'' ''alloy'' ''Be brief.''))
      [Connected (Returns 0), Configured (Returns ()),
       Next_event (Raises (Exception ''connection lost''))]))
   \<and> commands (trace (run (start (WebSocketVoiceSession ''wss://host'' ''gpt'' ''alloy'' ''Be brief.''))
      [Connected (Returns 0), Configured (Returns ()),
       Next_event (Raises (Exception ''connection lost'')),
       Received (Returns (JObj [(''type'', JStr ''audio''), (''audio'', JStr ''QUJD'')]))]))
     = commands (trace (run (start (WebSocketVoiceSession ''wss://host'' ''gpt'' ''alloy'' ''Be brief.''))
      [Connected (Returns 0), Configured (Returns ()),
       Next_event (Raises (Exception ''connection lost''))]))
       @ [InputAudioBufferAppend (JStr ''QUJD'')]"
  by code_simp

section \<open>The end of the race\<close>

text \<open>
  Claim C1, as the code has it. In every execution of \<^verbatim>\<open>start\<close>: when the wait returns
  because a relay task is done, \<^verbatim>\<open>start\<close> cancels each task that is still pending, the
  task ends cancelled, the upstream connection is closed after that, and only then has
  \<^verbatim>\<open>start\<close> returned; whenever \<^verbatim>\<open>start\<close> has returned no task is pending and the upstream
  connection, if it was opened, is closed. The browser socket is not closed by \<^verbatim>\<open>start\<close>
  in any execution: that handle is left to the caller.
\<close>

theorem start_cancels_and_closes_upstream:
  "c = run (start (WebSocketVoiceSession e m v i)) rs \<Longrightarrow>
     (wait_returns c \<longrightarrow>
        start_at (step c Waited) = Finished
        \<and> receive_task (step c Waited)
            = (if pending (receive_task c) then Cancelled else receive_task c)
        \<and> process_task (step c Waited)
            = (if pending (process_task c) then Cancelled else process_task c)
        \<and> trace (step c Waited) = trace c
            @ (if pending (receive_task c) then [TaskCancel ''receive_task''] else [])
            @ (if pending (process_task c) then [TaskCancel ''process_task''] else [])
            @ [ConnectionClose, LogInfo ''Voice session ended''])
     \<and> (start_at c = Finished \<longrightarrow>
          \<not> pending (receive_task c) \<and> \<not> pending (process_task c)
          \<and> (connection (sess c) = None \<or> ConnectionClose \<in> set (trace c)))
     \<and> WebSocketClose \<notin> set (trace c)"
proof -
  assume c: "c = run (start (WebSocketVoiceSession e m v i)) rs"
  have s: "shaped c" unfolding c using shaped_start by (rule shaped_run)
  have "wait_returns c \<longrightarrow>
        start_at (step c Waited) = Finished
        \<and> receive_task (step c Waited)
            = (if pending (receive_task c) then Cancelled else receive_task c)
        \<and> process_task (step c Waited)
            = (if pending (process_task c) then Cancelled else process_task c)
        \<and> trace (step c Waited) = trace c
            @ (if pending (receive_task c) then [TaskCancel ''receive_task''] else [])
            @ (if pending (process_task c) then [TaskCancel ''process_task''] else [])
            @ [ConnectionClose, LogInfo ''Voice session ended'']"
    using waited_tasks [OF s] waited_trace [OF s] by blast
  moreover have "start_at c = Finished \<longrightarrow>
          \<not> pending (receive_task c) \<and> \<not> pending (process_task c)
          \<and> (connection (sess c) = None \<or> ConnectionClose \<in> set (trace c))"
    using s by (auto simp: shaped_def closed_if_open_def)
  moreover have "WebSocketClose \<notin> set (trace c)" using s by (simp add: shaped_def)
  ultimately show ?thesis by blast
qed

theorem start_cancels_and_closes_upstream_witness:
  "process_task (step (run (start (WebSocketVoiceSession ''wss://host'' ''gpt'' ''alloy'' ''Be brief.''))
      [Connected (Returns 0), Configured (Returns ()),
       Received (Returns (JObj [(''type'', JStr ''stop'')]))]) Waited) = Cancelled
   \<and> start_at (step (run (start (WebSocketVoiceSession ''wss://host'' ''gpt'' ''alloy'' ''Be brief.''))
      [Connected (Returns 0), Configured (Returns ()),
       Received (Returns (JObj [(''type'', JStr ''stop'')]))]) Waited) = Finished"
proof -
  let ?c = "run (start (WebSocketVoiceSession ''wss://host'' ''gpt'' ''alloy'' ''Be brief.''))
      [Connected (Returns 0), Configured (Returns ()),
       Received (Returns (JObj [(''type'', JStr ''stop'')]))]"
  have w: "wait_returns ?c" by code_simp
  have p: "pending (process_task ?c)" by code_simp
  show ?thesis using start_cancels_and_closes_upstream [OF refl, of "''wss://host''" "''gpt''" "''alloy''" "''Be brief.''"
        "[Connected (Returns 0), Configured (Returns ()),
          Received (Returns (JObj [(''type'', JStr ''stop'')]))]"] w p
    by simp
qed

text \<open>
  The receive task finishes first (the browser sent \<open>stop\<close>), the other task is cancelled
  and \<^verbatim>\<open>start\<close> returns; the browser socket has not been closed.
\<close>

theorem start_leaves_browser_socket_open:
  "start_at (run (start (WebSocketVoiceSession ''wss://host'' ''gpt'' ''alloy'' ''Be brief.''))
      [Connected (Returns 0), Configured (Returns ()),
       Received (Returns (JObj [(''type'', JStr ''stop'')])), Waited]) = Finished
   \<and> process_task (run (start (WebSocketVoiceSession ''wss://host'' ''gpt'' ''alloy'' ''Be brief.''))
      [Connected (Returns 0), Configured (Returns ()),
       Received (Returns (JObj [(''type'', JStr ''stop'')])), Waited]) = Cancelled
   \<and> WebSocketClose \<notin> set (trace (run (start (WebSocketVoiceSession ''wss://host'' ''gpt'' ''alloy'' ''Be brief.''))
      [Connected (Returns 0), Configured (Returns ()),
       Received (Returns (JObj [(''type'', JStr ''stop'')])), Waited]))"
  by code_simp

section \<open>The history of the flags\<close>

text \<open>
  Claim C8. A new session is active. Along every execution of \<^verbatim>\<open>start\<close> the flag never
  goes from false to true, and in an execution in which \<^verbatim>\<open>start\<close> has returned the flag
  is false and has gone from true to false exactly once.
\<close>

theorem active_falls_exactly_once:
  "active (WebSocketVoiceSession e m v i)
   \<and> rises (map (active \<circ> sess) (execution (start (WebSocketVoiceSession e m v i)) rs)) = 0
   \<and> (start_at (run (start (WebSocketVoiceSession e m v i)) rs) = Finished \<longrightarrow>
        \<not> active (sess (run (start (WebSocketVoiceSession e m v i)) rs))
        \<and> falls (map (active \<circ> sess) (execution (start (WebSocketVoiceSession e m v i)) rs)) = 1)"
proof -
  let ?c = "start (WebSocketVoiceSession e m v i)"
  have a: "active (sess ?c)" by (simp add: start_def WebSocketVoiceSession_def)
  have s: "shaped (run ?c rs)" using shaped_start by (rule shaped_run)
  have f: "start_at (run ?c rs) = Finished \<longrightarrow> \<not> active (sess (run ?c rs))"
    using s by (auto simp: shaped_def)
  show ?thesis using a f
    by (simp add: rises_execution falls_execution WebSocketVoiceSession_def)
qed

theorem active_falls_exactly_once_witness:
  "falls (map (active \<circ> sess) (execution (start (WebSocketVoiceSession ''wss://host'' ''gpt'' ''alloy'' ''Be brief.''))
      [Connected (Returns 0), Configured (Returns ()),
       Received (Returns (JObj [(''type'', JStr ''stop'')])), Waited])) = 1"
proof -
  have h: "start_at (run (start (WebSocketVoiceSession ''wss://host'' ''gpt'' ''alloy'' ''Be brief.''))
      [Connected (Returns 0), Configured (Returns ()),
       Received (Returns (JObj [(''type'', JStr ''stop'')])), Waited]) = Finished"
    by code_simp
  show ?thesis
    using active_falls_exactly_once [of "''wss://host''" "''gpt''" "''alloy''" "''Be brief.''"
        "[Connected (Returns 0), Configured (Returns ()),
          Received (Returns (JObj [(''type'', JStr ''stop'')])), Waited]"] h
    by blast
qed

text \<open>
  Claim C7, as the code has it. Every step of every coroutine, \<^verbatim>\<open>start\<close> and both relay
  tasks, leaves the active flag as it is or sets it to false, and leaves the ready flag
  as it is or sets it to true; the ready flag is written only when the upstream task
  resumes with an event, never by \<^verbatim>\<open>start\<close> and never by the receive task.
\<close>

theorem flags_move_one_way:
  "(active (sess (step c r)) \<longrightarrow> active (sess c))
   \<and> (session_ready (sess c) \<longrightarrow> session_ready (sess (step c r)))
   \<and> ((\<forall>x. r \<noteq> Next_event x) \<longrightarrow> session_ready (sess (step c r)) = session_ready (sess c))"
  using active_step [of c r] ready_step [of c r] ready_unchanged [of r c] by blast

theorem flags_move_one_way_witness:
  "active (sess (start (WebSocketVoiceSession ''wss://host'' ''gpt'' ''alloy'' ''Be brief.'')))
   \<and> session_ready (sess (step (run (start (WebSocketVoiceSession ''wss://host'' ''gpt'' ''alloy'' ''Be brief.''))
      [Connected (Returns 0), Configured (Returns ()),
       Next_event (Returns (Some (SESSION_UPDATED ''sess-42'')))]) (Notified (Returns ()))))
   \<and> session_ready (sess (step (start (WebSocketVoiceSession ''wss://host'' ''gpt'' ''alloy'' ''Be brief.''))
         (Connected (Returns 0))))
      = session_ready (sess (start (WebSocketVoiceSession ''wss://host'' ''gpt'' ''alloy'' ''Be brief.'')))"
proof -
  have 1: "active (sess (step (start (WebSocketVoiceSession ''wss://host'' ''gpt'' ''alloy'' ''Be brief.''))
      (Connected (Returns 0))))"
    by code_simp
  have 2: "session_ready (sess (run (start (WebSocketVoiceSession ''wss://host'' ''gpt'' ''alloy'' ''Be brief.''))
      [Connected (Returns 0), Configured (Returns ()),
       Next_event (Returns (Some (SESSION_UPDATED ''sess-42'')))]))"
    by code_simp
  have 3: "\<forall>x. Connected (Returns 0) \<noteq> Next_event x" by simp
  show ?thesis
    using 1 2 3
      flags_move_one_way [of "start (WebSocketVoiceSession ''wss://host'' ''gpt'' ''alloy'' ''Be brief.'')"
        "Connected (Returns 0)"]
      flags_move_one_way [of "run (start (WebSocketVoiceSession ''wss://host'' ''gpt'' ''alloy'' ''Be brief.''))
        [Connected (Returns 0), Configured (Returns ()),
         Next_event (Returns (Some (SESSION_UPDATED ''sess-42'')))]" "Notified (Returns ())"]
    by blast
qed

text \<open>
  While \<^verbatim>\<open>start\<close> is suspended in its wait, the receive task sets the active flag to
  false on \<open>stop\<close>, and the upstream task sets the ready flag on a session-updated event.
\<close>

theorem relay_tasks_write_flags:
  "active (sess (run (start (WebSocketVoiceSession ''wss://host'' ''gpt'' ''alloy'' ''Be brief.''))
      [Connected (Returns 0), Configured (Returns ())]))
   \<and> start_at (run (start (WebSocketVoiceSession ''wss://host'' ''gpt'' ''alloy'' ''Be brief.''))
      [Connected (Returns 0), Configured (Returns ()),
       Received (Returns (JObj [(''type'', JStr ''stop'')]))]) = At_wait
   \<and> active (sess (run (start (WebSocketVoiceSession ''wss://host'' ''gpt'' ''alloy'' ''Be brief.''))
      [Connected (Returns 0), Configured (Returns ()),
       Received (Returns (JObj [(''type'', JStr ''stop'')]))])) = False
   \<and> session_ready (sess (run (start (WebSocketVoiceSession ''wss://host'' ''gpt'' ''alloy'' ''Be brief.''))
      [Connected (Returns 0), Configured (Returns ()),
       Next_event (Returns (Some (SESSION_UPDATED ''sess-42'')))]))"
  by code_simp

section \<open>What the browser is told when a session ends\<close>

text \<open>
  Claim C9, as the code has it by design. In every execution of \<^verbatim>\<open>start\<close>: when \<^verbatim>\<open>connect\<close>
  or the session configuration fails with an exception that is not a disconnect of the
  browser, \<^verbatim>\<open>start\<close> reports it to the browser by one \<open>error\<close> notification with the
  text of the exception; whether that send returns or fails, \<^verbatim>\<open>start\<close> then returns
  without a further notification. When the browser sends \<open>stop\<close> in an active session
  and the wait returns, \<^verbatim>\<open>start\<close> returns and the browser has been sent nothing about
  the end of the session.
\<close>

theorem start_reports_its_own_exceptions:
  "c = run (start (WebSocketVoiceSession e m v i)) rs \<Longrightarrow>
     (start_at c = At_connect \<longrightarrow>
        start_at (step c (Connected (Raises (Exception x)))) = At_send_error
        \<and> notifications (trace (step c (Connected (Raises (Exception x)))))
            = notifications (trace c) @ [JObj [(''type'', JStr ''error''), (''message'', JStr x)]])
     \<and> (start_at c = At_session_update \<longrightarrow>
        start_at (step c (Configured (Raises (Exception x)))) = At_send_error
        \<and> notifications (trace (step c (Configured (Raises (Exception x)))))
            = notifications (trace c) @ [JObj [(''type'', JStr ''error''), (''message'', JStr x)]])
     \<and> (start_at c = At_send_error \<longrightarrow>
        start_at (step c (Reported sent)) = Finished
        \<and> notifications (trace (step c (Reported sent))) = notifications (trace c))
     \<and> (active (sess c) \<and> receive_task c = Suspended At_receive_json
          \<and> dict_get kvs ''type'' = JStr ''stop'' \<longrightarrow>
        start_at (step (step c (Received (Returns (JObj kvs)))) Waited) = Finished
        \<and> notifications (trace (step (step c (Received (Returns (JObj kvs)))) Waited))
            = notifications (trace c))"
proof -
  assume c: "c = run (start (WebSocketVoiceSession e m v i)) rs"
  have s: "shaped c" unfolding c using shaped_start by (rule shaped_run)
  have 1: "start_at c = At_connect \<longrightarrow>
        start_at (step c (Connected (Raises (Exception x)))) = At_send_error
        \<and> notifications (trace (step c (Connected (Raises (Exception x)))))
            = notifications (trace c) @ [JObj [(''type'', JStr ''error''), (''message'', JStr x)]]"
    by (simp add: start_except_simps)
  have 2: "start_at c = At_session_update \<longrightarrow>
        start_at (step c (Configured (Raises (Exception x)))) = At_send_error
        \<and> notifications (trace (step c (Configured (Raises (Exception x)))))
            = notifications (trace c) @ [JObj [(''type'', JStr ''error''), (''message'', JStr x)]]"
    by (simp add: start_except_simps connection_exit_def)
  have 3: "start_at c = At_send_error \<longrightarrow>
        start_at (step c (Reported sent)) = Finished
        \<and> notifications (trace (step c (Reported sent))) = notifications (trace c)"
    by simp
  have 4: "start_at (step (step c (Received (Returns (JObj kvs)))) Waited) = Finished
        \<and> notifications (trace (step (step c (Received (Returns (JObj kvs)))) Waited))
            = notifications (trace c)"
    if r: "receive_task c = Suspended At_receive_json"
      and k: "dict_get kvs ''type'' = JStr ''stop''"
  proof -
    let ?c1 = "step c (Received (Returns (JObj kvs)))"
    have w: "start_at c = At_wait" using s r shaped_pending_wait [of c] by (simp add: pending_def)
    have m: "receive_message (sess c) (JObj kvs)
        = ((sess c)\<lparr>active := False\<rparr>, [LogInfo ''Stop requested by browser''], Returned)"
      using k by (simp add: receive_message_def)
    have c1: "?c1 = c\<lparr>sess := (sess c)\<lparr>active := False\<rparr>, receive_task := Returned,
        trace := trace c @ [LogInfo ''Stop requested by browser'']\<rparr>"
      using r by (simp add: m receive_stretch_def)
    have s1: "shaped ?c1" using s by (rule shaped_step)
    have p: "relay_ok (process_task c)" using s w by (simp add: shaped_def)
    have w1: "wait_returns ?c1" unfolding c1 using w p
      by (auto simp: wait_returns_def is_done_def relay_ok_def pending_def split: task.splits)
    have f: "start_at (step ?c1 Waited) = Finished" using s1 w1 by (rule waited_tasks(3))
    have t: "trace (step ?c1 Waited) = trace ?c1
         @ (if pending (receive_task ?c1) then [TaskCancel ''receive_task''] else [])
         @ (if pending (process_task ?c1) then [TaskCancel ''process_task''] else [])
         @ [ConnectionClose, LogInfo ''Voice session ended'']"
      using s1 w1 by (rule waited_trace)
    have n: "notifications (trace (step ?c1 Waited)) = notifications (trace ?c1)"
      unfolding t by simp
    have n1: "notifications (trace ?c1) = notifications (trace c)" unfolding c1 by simp
    show ?thesis using f n n1 by simp
  qed
  show ?thesis using 1 2 3 4 by blast
qed

theorem start_reports_its_own_exceptions_witness:
  "notifications (trace (run (start (WebSocketVoiceSession ''wss://host'' ''gpt'' ''alloy'' ''Be brief.''))
      [Connected (Raises (Exception ''refused'')), Reported (Raises (WebSocketDisconnect ''1006''))]))
     = [JObj [(''type'', JStr ''error''), (''message'', JStr ''refused'')]]
   \<and> start_at (run (start (WebSocketVoiceSession ''wss://host'' ''gpt'' ''alloy'' ''Be brief.''))
      [Connected (Raises (Exception ''refused'')), Reported (Raises (WebSocketDisconnect ''1006''))])
     = Finished
   \<and> notifications (trace (run (start (WebSocketVoiceSession ''wss://host'' ''gpt'' ''alloy'' ''Be brief.''))
      [Connected (Returns 0), Configured (Raises (Exception ''denied''))]))
     = [JObj [(''type'', JStr ''error''), (''message'', JStr ''denied'')]]
   \<and> start_at (run (start (WebSocketVoiceSession ''wss://host'' ''gpt'' ''alloy'' ''Be brief.''))
      [Connected (Returns 0), Configured (Returns ()),
       Received (Returns (JObj [(''type'', JStr ''stop'')])), Waited]) = Finished
   \<and> notifications (trace (run (start (WebSocketVoiceSession ''wss://host'' ''gpt'' ''alloy'' ''Be brief.''))
      [Connected (Returns 0), Configured (Returns ()),
       Received (Returns (JObj [(''type'', JStr ''stop'')])), Waited])) = []"
proof -
  let ?c0 = "start (WebSocketVoiceSession ''wss://host'' ''gpt'' ''alloy'' ''Be brief.'')"
  let ?c1 = "run ?c0 [Connected (Raises (Exception ''refused''))]"
  let ?c2 = "run ?c0 [Connected (Returns 0)]"
  let ?c3 = "run ?c0 [Connected (Returns 0), Configured (Returns ())]"
  have r0: "run ?c0 [] = ?c0" by (simp add: run_def)
  have r1: "run ?c0 [Connected (Raises (Exception ''refused'')),
      Reported (Raises (WebSocketDisconnect ''1006''))]
    = step ?c1 (Reported (Raises (WebSocketDisconnect ''1006'')))"
    by (simp add: run_def)
  have r1': "?c1 = step ?c0 (Connected (Raises (Exception ''refused'')))"
    by (simp add: run_def)
  have r2: "run ?c0 [Connected (Returns 0), Configured (Raises (Exception ''denied''))]
    = step ?c2 (Configured (Raises (Exception ''denied'')))"
    by (simp add: run_def)
  have r3: "run ?c0 [Connected (Returns 0), Configured (Returns ()),
       Received (Returns (JObj [(''type'', JStr ''stop'')])), Waited]
    = step (step ?c3 (Received (Returns (JObj [(''type'', JStr ''stop'')])))) Waited"
    by (simp add: run_def)
  have 0: "start_at ?c0 = At_connect" "notifications (trace ?c0) = []"
    by (simp_all add: start_def)
  have 1: "start_at ?c1 = At_send_error"
    "notifications (trace ?c1) = [JObj [(''type'', JStr ''error''), (''message'', JStr ''refused'')]]"
    using 0 start_reports_its_own_exceptions [OF r0 [symmetric], of "''refused''"]
    unfolding r1' by simp_all
  have f1: "start_at (step ?c1 (Reported (Raises (WebSocketDisconnect ''1006'')))) = Finished"
    "notifications (trace (step ?c1 (Reported (Raises (WebSocketDisconnect ''1006'')))))
       = [JObj [(''type'', JStr ''error''), (''message'', JStr ''refused'')]]"
    using 1 start_reports_its_own_exceptions [OF refl, of
        "''wss://host''" "''gpt''" "''alloy''" "''Be brief.''"
        "[Connected (Raises (Exception ''refused''))]" _ "Raises (WebSocketDisconnect ''1006'')"]
    by simp_all
  have 2: "start_at ?c2 = At_session_update" "notifications (trace ?c2) = []" by code_simp+
  have f2: "notifications (trace (step ?c2 (Configured (Raises (Exception ''denied'')))))
       = [JObj [(''type'', JStr ''error''), (''message'', JStr ''denied'')]]"
    using 2 start_reports_its_own_exceptions [OF refl, of
        "''wss://host''" "''gpt''" "''alloy''" "''Be brief.''" "[Connected (Returns 0)]" "''denied''"]
    by simp
  have 3: "active (sess ?c3)" "receive_task ?c3 = Suspended At_receive_json"
    "notifications (trace ?c3) = []" by code_simp+
  have k: "dict_get [(''type'', JStr ''stop'')] ''type'' = JStr ''stop''"
    by (simp add: dict_get_def)
  have f3: "start_at (step (step ?c3 (Received (Returns (JObj [(''type'', JStr ''stop'')])))) Waited)
       = Finished"
    "notifications (trace (step (step ?c3 (Received (Returns (JObj [(''type'', JStr ''stop'')]))))
       Waited)) = []"
    using 3 k start_reports_its_own_exceptions [OF refl, of
        "''wss://host''" "''gpt''" "''alloy''" "''Be brief.''"
        "[Connected (Returns 0), Configured (Returns ())]" _ _ "[(''type'', JStr ''stop'')]"]
    by simp_all
  show ?thesis unfolding r1 r2 r3 using f1 f2 f3 by simp
qed

text \<open>
  A session that ends while the browser is still connected and is sent no notification
  at all: the browser sent \<open>stop\<close>, and no statement of the code sends anything on that
  path.
\<close>

theorem session_ends_without_notification:
  "start_at (run (start (WebSocketVoiceSession ''wss://host'' ''gpt'' ''alloy'' ''Be brief.''))
      [Connected (Returns 0), Configured (Returns ()),
       Received (Returns (JObj [(''type'', JStr ''stop'')])), Waited]) = Finished
   \<and> notifications (trace (run (start (WebSocketVoiceSession ''wss://host'' ''gpt'' ''alloy'' ''Be brief.''))
      [Connected (Returns 0), Configured (Returns ()),
       Received (Returns (JObj [(''type'', JStr ''stop'')])), Waited])) = []"
  by code_simp

section \<open>Failures inside the relay loops\<close>

text \<open>
  Claim C5, as the code has it. In the upstream loop a failure of translating one event
  (its payload is missing, so building the notification raises) and a failed send of one
  notification are both caught by the handler of that event and logged; nothing is sent
  for the event that failed to translate, the flags are left alone, and the loop asks for
  the next event: after any single event read in an active session the loop is still
  running. Only a failure of the stream itself ends that loop. In the receive loop every
  exception (a failed read, a disconnect, a message that is not an object, a failure of
  the forwarded upstream command) is caught by the handler around the loop: it writes one
  log record, sets the flag to false and the loop has ended. No exception leaves either
  coroutine.
\<close>

theorem relay_failure_handling:
  "handle_azure_event s SESSION_UPDATED_without_session
     = (s, [LogError (''Error handling Azure event: '' @ str_of (none_attribute_error ''id''))],
        Suspended At_next_event)
   \<and> handle_azure_event s RESPONSE_AUDIO_DELTA_without_delta
     = (s, [LogError (''Error handling Azure event: '' @ str_of bytes_type_error)],
        Suspended At_next_event)
   \<and> handle_azure_event s ERROR_without_error
     = (s, [LogError (''Error handling Azure event: '' @ str_of (none_attribute_error ''message''))],
        Suspended At_next_event)
   \<and> handle_sent s (Raises e)
     = (s, [LogError (''Error handling Azure event: '' @ str_of e)], Suspended At_next_event)
   \<and> (active s \<longrightarrow>
        process_next s (Returns (Some event)) = handle_azure_event s event
        \<and> pending (task_of (process_next s (Returns (Some event))))
        \<and> active (session_of (process_next s (Returns (Some event)))))
   \<and> process_next s (Raises e)
     = (s\<lparr>active := False\<rparr>, [LogError (''Error processing Azure events: '' @ str_of e)], Returned)
   \<and> receive_forwarded s (Raises e) = receive_except e s
   \<and> receive_received s (Raises e) = receive_except e s
   \<and> (type_name data \<noteq> ''dict'' \<longrightarrow>
        receive_message s data = receive_except (attribute_error data) s)
   \<and> task_of (receive_except e s) = Returned
   \<and> session_of (receive_except e s) = s\<lparr>active := False\<rparr>
   \<and> list_all is_log (effects_of (receive_except e s))
   \<and> length (effects_of (receive_except e s)) = 1
   \<and> task_of (receive_received s r) \<noteq> Raised x
   \<and> task_of (receive_forwarded s u) \<noteq> Raised x
   \<and> task_of (process_next s n) \<noteq> Raised x
   \<and> task_of (handle_sent s u) \<noteq> Raised x"
proof -
  have 1: "type_name data \<noteq> ''dict'' \<longrightarrow>
        receive_message s data = receive_except (attribute_error data) s"
    by (cases data) (simp_all add: receive_message_def)
  have 2: "task_of (receive_received s r) \<noteq> Raised x"
    using receive_received_facts(4) [of s r] by (auto simp: relay_ok_def pending_def)
  have 3: "task_of (receive_forwarded s u) \<noteq> Raised x"
    using receive_forwarded_facts(4) [of s u] by (auto simp: relay_ok_def pending_def)
  have 4: "task_of (process_next s n) \<noteq> Raised x"
    using process_next_facts(4) [of s n] by (auto simp: relay_ok_def pending_def)
  have 5: "active s \<longrightarrow>
        process_next s (Returns (Some event)) = handle_azure_event s event
        \<and> pending (task_of (process_next s (Returns (Some event))))
        \<and> active (session_of (process_next s (Returns (Some event))))"
    using handle_azure_event_facts(2,4) [of s event] by simp
  have 6: "handle_azure_event s SESSION_UPDATED_without_session
       = (s, [LogError (''Error handling Azure event: '' @ str_of (none_attribute_error ''id''))],
          Suspended At_next_event)"
    "handle_azure_event s RESPONSE_AUDIO_DELTA_without_delta
       = (s, [LogError (''Error handling Azure event: '' @ str_of bytes_type_error)],
          Suspended At_next_event)"
    "handle_azure_event s ERROR_without_error
       = (s, [LogError (''Error handling Azure event: '' @ str_of (none_attribute_error ''message''))],
          Suspended At_next_event)"
    by (simp_all add: handle_except_def)
  have 7: "handle_sent s (Raises e)
       = (s, [LogError (''Error handling Azure event: '' @ str_of e)], Suspended At_next_event)"
    "process_next s (Raises e)
       = (s\<lparr>active := False\<rparr>, [LogError (''Error processing Azure events: '' @ str_of e)], Returned)"
    "receive_forwarded s (Raises e) = receive_except e s"
    "receive_received s (Raises e) = receive_except e s"
    by (simp_all add: process_except_def)
  have 8: "task_of (handle_sent s u) \<noteq> Raised x"
    by (simp add: handle_sent_facts)
  show ?thesis
    unfolding 6 7 using 1 2 3 4 5 8 receive_except_facts [of e s] by simp
qed

theorem relay_failure_handling_witness:
  "receive_message (WebSocketVoiceSession ''wss://host'' ''gpt'' ''alloy'' ''Be brief.'') (JArr [])
     = ((WebSocketVoiceSession ''wss://host'' ''gpt'' ''alloy'' ''Be brief.'')\<lparr>active := False\<rparr>,
        [LogError (''Error receiving from browser: '' @ quoted ''list''
           @ '' object has no attribute '' @ quoted ''get'')], Returned)
   \<and> process_next (WebSocketVoiceSession ''wss://host'' ''gpt'' ''alloy'' ''Be brief.'')
        (Returns (Some RESPONSE_AUDIO_DELTA_without_delta))
     = (WebSocketVoiceSession ''wss://host'' ''gpt'' ''alloy'' ''Be brief.'',
        [LogError (''Error handling Azure event: a bytes-like object is required, not ''
           @ quoted ''NoneType'')], Suspended At_next_event)"
proof -
  have t: "type_name (JArr []) \<noteq> ''dict''" by simp
  have a: "active (WebSocketVoiceSession ''wss://host'' ''gpt'' ''alloy'' ''Be brief.'')"
    by (simp add: WebSocketVoiceSession_def)
  have 1: "receive_message (WebSocketVoiceSession ''wss://host'' ''gpt'' ''alloy'' ''Be brief.'') (JArr [])
     = ((WebSocketVoiceSession ''wss://host'' ''gpt'' ''alloy'' ''Be brief.'')\<lparr>active := False\<rparr>,
        [LogError (''Error receiving from browser: '' @ quoted ''list''
           @ '' object has no attribute '' @ quoted ''get'')], Returned)"
    using t relay_failure_handling [of "WebSocketVoiceSession ''wss://host'' ''gpt'' ''alloy'' ''Be brief.''"
        "Exception ''x''" RESPONSE_DONE "JArr []"]
    by (simp add: attribute_error_def)
  have 2: "process_next (WebSocketVoiceSession ''wss://host'' ''gpt'' ''alloy'' ''Be brief.'')
        (Returns (Some RESPONSE_AUDIO_DELTA_without_delta))
     = (WebSocketVoiceSession ''wss://host'' ''gpt'' ''alloy'' ''Be brief.'',
        [LogError (''Error handling Azure event: a bytes-like object is required, not ''
           @ quoted ''NoneType'')], Suspended At_next_event)"
    using a relay_failure_handling [of "WebSocketVoiceSession ''wss://host'' ''gpt'' ''alloy'' ''Be brief.''"
        "Exception ''x''" RESPONSE_AUDIO_DELTA_without_delta "JArr []"]
    by (simp add: bytes_type_error_def)
  show ?thesis using 1 2 by (simp only: simp_thms)
qed

text \<open>
  One failed append ends the receive loop: the task was suspended in the command, the
  command fails, and the task has returned with the flag set to false.
\<close>

theorem forward_failure_ends_receive_loop:
  "receive_task (run (start (WebSocketVoiceSession ''wss://host'' ''gpt'' ''alloy'' ''Be brief.''))
      [Connected (Returns 0), Configured (Returns ()),
       Received (Returns (JObj [(''type'', JStr ''audio''), (''audio'', JStr ''QUJD'')]))])
     = Suspended At_upstream_command
   \<and> receive_task (run (start (WebSocketVoiceSession ''wss://host'' ''gpt'' ''alloy'' ''Be brief.''))
      [Connected (Returns 0), Configured (Returns ()),
       Received (Returns (JObj [(''type'', JStr ''audio''), (''audio'', JStr ''QUJD'')])),
       Forwarded (Raises (Exception ''send failed''))])
     = Returned
   \<and> \<not> active (sess (run (start (WebSocketVoiceSession ''wss://host'' ''gpt'' ''alloy'' ''Be brief.''))
      [Connected (Returns 0), Configured (Returns ()),
       Received (Returns (JObj [(''type'', JStr ''audio''), (''audio'', JStr ''QUJD'')])),
       Forwarded (Raises (Exception ''send failed''))]))"
  by code_simp

end
